theory Spec2Isabelle
  imports Complex_Main
begin

text \<open>
  A shallow embedding of the news pipeline: the scraper, the classifier, the
  recommendation update, the article store, the trending count, severity scoring
  and the coordinate lookup. Collaborators (the network, the HTML parser, the
  inference service, the geocoder, failures of the database) are parameters of the
  functions; exceptions are values; what a function does to the store is the store
  it returns. The definitions come first, module by module, the proofs after them.
\<close>

section \<open>Python values shared by the modules\<close>

text \<open>
  The exceptions the modelled code can meet. Every handler in the repository is
  \<^verbatim>\<open>except Exception\<close>, so the handlers do not look at the value; the constructors
  only record where a failure comes from. \<open>External\<close> stands for anything raised by
  a collaborator (HTTP client, HTML parser, inference service, database driver).
\<close>

datatype exn =
    KeyError string
  | TypeError
  | AttributeError
  | IntegrityError
  | GeocoderRateLimited
  | GeocoderTimedOut
  | GeocoderUnavailable
  | External string

text \<open>\<^verbatim>\<open>d.get(k, default)\<close> on a dict held as an association list.\<close>

definition dict_get :: "('k \<times> 'v) list \<Rightarrow> 'k \<Rightarrow> 'v \<Rightarrow> 'v" where
  "dict_get d k dflt = (case map_of d k of Some v \<Rightarrow> v | None \<Rightarrow> dflt)"

text \<open>\<^verbatim>\<open>d[k]\<close>: a missing key raises KeyError.\<close>

definition subscript :: "(string \<times> 'v) list \<Rightarrow> string \<Rightarrow> exn + 'v" where
  "subscript d k = (case map_of d k of Some v \<Rightarrow> Inr v | None \<Rightarrow> Inl (KeyError k))"

text \<open>\<^verbatim>\<open>s.startswith(p)\<close>.\<close>

definition startswith :: "string \<Rightarrow> string \<Rightarrow> bool" where
  "startswith s p = (take (length p) s = p)"

section \<open>threat_map.py: severity scoring\<close>

definition severity_mapping :: "(string \<times> int) list" where
  "severity_mapping =
    [(''Ransomware'', 5),
     (''Zero-day Vulnerability'', 5),
     (''Data Breach'', 4),
     (''Supply Chain Attack'', 4),
     (''Phishing'', 3),
     (''Social Engineering'', 3),
     (''DDoS'', 2),
     (''Insider Threat'', 3),
     (''APT'', 5),
     (''Malware'', 4),
     (''Other'', 1)]"

definition category_modifiers :: "(string \<times> int) list" where
  "category_modifiers =
    [(''Critical Infrastructure'', 1),
     (''Government'', 1),
     (''Healthcare'', 1),
     (''Financial'', 1)]"

text \<open>
  \<^verbatim>\<open>calculate_threat_severity(threat_type, category=None)\<close>. The test
  \<^verbatim>\<open>if category:\<close> is false for \<open>None\<close> and for the empty string.
\<close>

definition calculate_threat_severity :: "string \<Rightarrow> string option \<Rightarrow> int" where
  "calculate_threat_severity threat_type category =
    (let base_severity = dict_get severity_mapping threat_type 1 in
     case category of
       None \<Rightarrow> base_severity
     | Some c \<Rightarrow>
         if c \<noteq> [] then
           (let modifier = dict_get category_modifiers c 0
            in min 5 (base_severity + modifier))
         else base_severity)"

text \<open>
  The reference definition, written from the specification's sentence: the base
  severity is the table value (1 outside the table), and a category among the four
  sensitive ones adds one, capped at five.
\<close>

definition sensitive_categories :: "string list" where
  "sensitive_categories =
    [''Critical Infrastructure'', ''Government'', ''Healthcare'', ''Financial'']"

definition base_severity_reference :: "string \<Rightarrow> int" where
  "base_severity_reference threat_type =
    (if threat_type \<in> set (map fst severity_mapping)
     then the (map_of severity_mapping threat_type) else 1)"

definition severity_reference :: "string \<Rightarrow> string option \<Rightarrow> int" where
  "severity_reference threat_type category =
    (if category \<in> set (map Some sensitive_categories)
     then min 5 (base_severity_reference threat_type + 1)
     else base_severity_reference threat_type)"

section \<open>pandas and collections, as far as the code uses them\<close>

text \<open>
  A DataFrame is its column index and its rows; a row is a dict from column name to
  cell, a cell is a string or null (\<open>None\<close>, which stands for Python's None and
  NaN alike). A row without a key has a null cell in that column, as the
  \<^verbatim>\<open>pd.DataFrame(list_of_dicts)\<close> constructor fills it.
\<close>

type_synonym cell = "string option"

type_synonym row = "(string \<times> cell) list"

record dataframe =
  df_columns :: "string list"
  df_rows :: "row list"

text \<open>Distinct elements in order of first appearance.\<close>

fun uniq :: "'a list \<Rightarrow> 'a list" where
  "uniq [] = []"
| "uniq (x # xs) = x # filter (\<lambda>y. y \<noteq> x) (uniq xs)"

definition DataFrame :: "row list \<Rightarrow> dataframe" where
  "DataFrame records =
     \<lparr>df_columns = uniq (concat (map (map fst) records)), df_rows = records\<rparr>"

definition df_empty :: "dataframe \<Rightarrow> bool" where
  "df_empty df = (df_columns df = [] \<or> df_rows df = [])"

definition cell_of :: "row \<Rightarrow> string \<Rightarrow> cell" where
  "cell_of r c = (case map_of r c of Some v \<Rightarrow> v | None \<Rightarrow> None)"

text \<open>\<^verbatim>\<open>df[c]\<close>: KeyError when the frame has no such column.\<close>

definition df_getitem :: "dataframe \<Rightarrow> string \<Rightarrow> exn + cell list" where
  "df_getitem df c =
     (if c \<in> set (df_columns df) then Inr (map (\<lambda>r. cell_of r c) (df_rows df))
      else Inl (KeyError c))"

fun dropna :: "'a option list \<Rightarrow> 'a list" where
  "dropna [] = []"
| "dropna (None # cs) = dropna cs"
| "dropna (Some v # cs) = v # dropna cs"

text \<open>
  \<^verbatim>\<open>collections.Counter\<close>: a dict of counts, which keeps its keys in insertion
  order. \<open>counter_add\<close> is \<^verbatim>\<open>c[x] += 1\<close>.
\<close>

fun counter_add :: "('a \<times> nat) list \<Rightarrow> 'a \<Rightarrow> ('a \<times> nat) list" where
  "counter_add [] x = [(x, 1)]"
| "counter_add ((y, n) # c) x =
     (if x = y then (y, Suc n) # c else (y, n) # counter_add c x)"

definition Counter :: "'a list \<Rightarrow> ('a \<times> nat) list" where
  "Counter xs = foldl counter_add [] xs"

text \<open>
  \<^verbatim>\<open>most_common(n)\<close> is \<^verbatim>\<open>heapq.nlargest(n, items, key=count)\<close>, which the
  library documents as \<^verbatim>\<open>sorted(items, key=count, reverse=True)[:n]\<close>: a stable
  sort by descending count. \<open>sort_key\<close> is stable too.
\<close>

definition most_common :: "nat \<Rightarrow> ('a \<times> nat) list \<Rightarrow> ('a \<times> nat) list" where
  "most_common n c = take n (sort_key (\<lambda>p. - int (snd p)) c)"

record trend =
  threat :: string
  count :: nat

definition get_trending_threats :: "dataframe \<Rightarrow> exn + trend list" where
  "get_trending_threats df =
     (if df_empty df then Inr []
      else case df_getitem df ''threat_type'' of
        Inl e \<Rightarrow> Inl e
      | Inr col \<Rightarrow>
          (let threat_counts = Counter (dropna col)
           in Inr (map (\<lambda>(t, c). \<lparr>threat = t, count = c\<rparr>) (most_common 3 threat_counts))))"

text \<open>Specification vocabulary for the ranking.\<close>

fun first_index :: "'a list \<Rightarrow> 'a \<Rightarrow> nat" where
  "first_index [] x = 0"
| "first_index (y # ys) x = (if x = y then 0 else Suc (first_index ys x))"

definition ranks_before :: "'a list \<Rightarrow> 'a \<Rightarrow> 'a \<Rightarrow> bool" where
  "ranks_before vs a b =
     (count_list vs b < count_list vs a
      \<or> (count_list vs a = count_list vs b \<and> first_index vs a < first_index vs b))"

definition scenario_batch :: "row list" where
  "scenario_batch =
    [[(''title'', Some ''a''), (''threat_type'', Some ''Phishing'')],
     [(''title'', Some ''b''), (''threat_type'', Some ''Phishing'')],
     [(''title'', Some ''c''), (''threat_type'', Some ''Ransomware'')]]"


definition tied_batch :: "row list" where
  "tied_batch =
    [[(''threat_type'', Some ''DDoS'')],
     [(''threat_type'', Some ''Malware'')],
     [(''threat_type'', None)],
     [(''threat_type'', Some ''Malware'')],
     [(''threat_type'', Some ''APT'')],
     [(''threat_type'', Some ''Phishing'')],
     [(''threat_type'', Some ''Phishing'')]]"

section \<open>scraper.py\<close>

record source_info =
  src_url :: string
  src_region :: string

definition SOURCES :: "(string \<times> source_info) list" where
  "SOURCES =
    [(''Krebs on Security'', \<lparr>src_url = ''https://krebsonsecurity.com'', src_region = ''North America''\<rparr>),
     (''The Hacker News'', \<lparr>src_url = ''https://thehackernews.com'', src_region = ''Global''\<rparr>),
     (''Bleeping Computer'', \<lparr>src_url = ''https://www.bleepingcomputer.com'', src_region = ''North America''\<rparr>),
     (''Security Week'', \<lparr>src_url = ''https://www.securityweek.com'', src_region = ''North America''\<rparr>),
     (''Dark Reading'', \<lparr>src_url = ''https://www.darkreading.com'', src_region = ''North America''\<rparr>),
     (''Threatpost'', \<lparr>src_url = ''https://threatpost.com'', src_region = ''North America''\<rparr>),
     (''CSO Online'', \<lparr>src_url = ''https://www.csoonline.com'', src_region = ''North America''\<rparr>),
     (''Naked Security'', \<lparr>src_url = ''https://nakedsecurity.sophos.com'', src_region = ''Europe''\<rparr>),
     (''Kenya Cybersecurity Report'', \<lparr>src_url = ''https://www.serianu.com/blog'', src_region = ''Kenya''\<rparr>),
     (''Kenya Tech News'', \<lparr>src_url = ''https://techweez.com/category/security'', src_region = ''Kenya''\<rparr>),
     (''Business Daily Security'', \<lparr>src_url = ''https://www.businessdailyafrica.com/bd/corporate/technology'', src_region = ''Kenya''\<rparr>),
     (''The Standard Tech'', \<lparr>src_url = ''https://www.standardmedia.co.ke/tech'', src_region = ''Kenya''\<rparr>),
     (''ZDNet Security'', \<lparr>src_url = ''https://www.zdnet.com/security'', src_region = ''Global''\<rparr>),
     (''Infosecurity Magazine'', \<lparr>src_url = ''https://www.infosecurity-magazine.com'', src_region = ''Europe''\<rparr>),
     (''SC Magazine'', \<lparr>src_url = ''https://www.scmagazine.com'', src_region = ''North America''\<rparr>),
     (''The Register Security'', \<lparr>src_url = ''https://www.theregister.com/security'', src_region = ''Europe''\<rparr>),
     (''Cyber Scoop'', \<lparr>src_url = ''https://www.cyberscoop.com'', src_region = ''North America''\<rparr>),
     (''The Record'', \<lparr>src_url = ''https://therecord.media'', src_region = ''Global''\<rparr>),
     (''IT Security Guru'', \<lparr>src_url = ''https://www.itsecurityguru.org'', src_region = ''Europe''\<rparr>),
     (''Security Affairs'', \<lparr>src_url = ''https://securityaffairs.com'', src_region = ''Europe''\<rparr>),
     (''The Stack Asia'', \<lparr>src_url = ''https://thestack.technology/category/security'', src_region = ''Asia''\<rparr>),
     (''Security Brief Asia'', \<lparr>src_url = ''https://securitybrief.asia'', src_region = ''Asia''\<rparr>),
     (''IT News Africa'', \<lparr>src_url = ''https://www.itnewsafrica.com/category/security'', src_region = ''Africa''\<rparr>)]"

text \<open>
  The parsed page, as far as the scraper looks at it. An attribute value is a string
  or, for the multi-valued attributes, a list; an anchor has its \<open>href\<close> attribute
  (if any) and its text; an element answers \<^verbatim>\<open>select_one(selector)\<close>; the page
  answers \<^verbatim>\<open>select(selector)\<close>. Either call may raise.
\<close>

datatype attr = AttrStr string | AttrList "string list"

record anchor =
  href :: "attr option"
  tag_text :: string

type_synonym element = "(string \<times> (exn + anchor)) list"

type_synonym page = "(string \<times> (exn + element list)) list"

definition select_one :: "element \<Rightarrow> string \<Rightarrow> exn + anchor option" where
  "select_one el selector =
     (case map_of el selector of
        None \<Rightarrow> Inr None
      | Some (Inl e) \<Rightarrow> Inl e
      | Some (Inr a) \<Rightarrow> Inr (Some a))"

definition select :: "page \<Rightarrow> string \<Rightarrow> exn + element list" where
  "select soup selector =
     (case map_of soup selector of
        None \<Rightarrow> Inr []
      | Some r \<Rightarrow> r)"

text \<open>
  The network: the HTTP client, the HTML parser, and trafilatura's download and
  extraction (which yields a text, or None).
\<close>

record web =
  requests_get :: "string \<Rightarrow> exn + string"
  BeautifulSoup :: "string \<Rightarrow> exn + page"
  trafilatura :: "string \<Rightarrow> exn + string option"

text \<open>
  Whitespace, \<^verbatim>\<open>str.split()\<close>, \<^verbatim>\<open>" ".join\<close> and \<^verbatim>\<open>str.strip()\<close>. A character
  is a code point below 256; \<open>is_space\<close> is \<^verbatim>\<open>str.isspace\<close> on these: the ASCII
  whitespace, the separators U+001C to U+001F, U+0085 and U+00A0.
\<close>

definition is_space :: "char \<Rightarrow> bool" where
  "is_space c =
     (of_char c \<in> set [9, 10, 11, 12, 13, 28, 29, 30, 31, 32, 133, 160 :: nat])"

fun split_acc :: "string \<Rightarrow> string \<Rightarrow> string list" where
  "split_acc w [] = (if w = [] then [] else [rev w])"
| "split_acc w (c # cs) =
     (if is_space c then (if w = [] then split_acc [] cs else rev w # split_acc [] cs)
      else split_acc (c # w) cs)"

definition split :: "string \<Rightarrow> string list" where
  "split s = split_acc [] s"

fun join :: "string \<Rightarrow> string list \<Rightarrow> string" where
  "join sep [] = []"
| "join sep [w] = w"
| "join sep (w # ws) = w @ sep @ join sep ws"

definition strip :: "string \<Rightarrow> string" where
  "strip s = rev (dropWhile is_space (rev (dropWhile is_space s)))"

definition clean_text :: "string option \<Rightarrow> string" where
  "clean_text t =
     (case t of
        None \<Rightarrow> []
      | Some s \<Rightarrow> if s = [] then [] else join '' '' (split s))"

definition scrape_article :: "web \<Rightarrow> string \<Rightarrow> string" where
  "scrape_article w url =
     (case trafilatura w url of
        Inl e \<Rightarrow> []
      | Inr t \<Rightarrow> clean_text t)"

text \<open>\<^verbatim>\<open>extract_url(element)\<close>: a string, something with \<^verbatim>\<open>get\<close>, or anything else.\<close>

datatype extractable = RawString string | TagLike anchor | Opaque

fun extract_url :: "extractable \<Rightarrow> attr" where
  "extract_url (RawString s) = AttrStr s"
| "extract_url (TagLike a) = (case href a of Some v \<Rightarrow> v | None \<Rightarrow> AttrStr [])"
| "extract_url Opaque = AttrStr []"

record article =
  art_title :: string
  art_url :: string
  art_source :: string
  art_region :: string
  art_summary :: string

definition title_selectors :: "string list" where
  "title_selectors = [''h1 a'', ''h2 a'', ''h3 a'', ''.title a'', ''.headline a'']"

text \<open>The \<^verbatim>\<open>or\<close> chain of \<^verbatim>\<open>select_one\<close> calls: the first that is not None.\<close>

fun first_title :: "element \<Rightarrow> string list \<Rightarrow> exn + anchor option" where
  "first_title el [] = Inr None"
| "first_title el (s # ss) =
     (case select_one el s of
        Inl e \<Rightarrow> Inl e
      | Inr (Some a) \<Rightarrow> Inr (Some a)
      | Inr None \<Rightarrow> first_title el ss)"

text \<open>
  The body of the inner loop for one matched element, on the list \<open>articles\<close>
  built so far. \<open>Inl\<close> is an exception raised before anything is appended.
\<close>

definition extract_candidate ::
  "web \<Rightarrow> string \<Rightarrow> source_info \<Rightarrow> element \<Rightarrow> article list \<Rightarrow> exn + article list" where
  "extract_candidate w source_name info el articles =
     (case first_title el title_selectors of
        Inl e \<Rightarrow> Inl e
      | Inr None \<Rightarrow> Inr articles
      | Inr (Some title_element) \<Rightarrow>
          (case extract_url (TagLike title_element) of
             AttrList _ \<Rightarrow> Inr articles
           | AttrStr url \<Rightarrow>
               if url \<noteq> [] then
                 (let url = (if \<not> startswith url ''http'' then src_url info @ url else url)
                  in Inr (articles @
                      [\<lparr>art_title = strip (tag_text title_element),
                        art_url = url,
                        art_source = source_name,
                        art_region = src_region info,
                        art_summary = scrape_article w url\<rparr>]))
               else Inr articles))"

text \<open>
  The loops return the list as it stands and the exception that ended them, if any:
  the handler of \<open>scrape_source\<close> returns the list either way.
\<close>

fun extract_candidates ::
  "web \<Rightarrow> string \<Rightarrow> source_info \<Rightarrow> element list \<Rightarrow> article list
     \<Rightarrow> article list \<times> exn option" where
  "extract_candidates w source_name info [] articles = (articles, None)"
| "extract_candidates w source_name info (el # els) articles =
     (case extract_candidate w source_name info el articles of
        Inl e \<Rightarrow> (articles, Some e)
      | Inr articles' \<Rightarrow> extract_candidates w source_name info els articles')"

definition selectors :: "string list" where
  "selectors = [''article'', ''.post'', ''.article'', ''.news-item'', ''.story'', ''.entry'']"

text \<open>
  The selector loop. Besides the list and the exception it returns the selectors
  passed to \<^verbatim>\<open>soup.select\<close>, in order.
\<close>

fun try_selectors ::
  "web \<Rightarrow> string \<Rightarrow> source_info \<Rightarrow> page \<Rightarrow> string list \<Rightarrow> article list
     \<Rightarrow> article list \<times> string list \<times> exn option" where
  "try_selectors w source_name info soup [] articles = (articles, [], None)"
| "try_selectors w source_name info soup (selector # rest) articles =
     (case select soup selector of
        Inl e \<Rightarrow> (articles, [selector], Some e)
      | Inr articles_elements \<Rightarrow>
          if articles_elements \<noteq> [] then
            (case extract_candidates w source_name info (take 5 articles_elements) articles of
               (articles', Some e) \<Rightarrow> (articles', [selector], Some e)
             | (articles', None) \<Rightarrow>
                 if articles' \<noteq> [] then (articles', [selector], None)
                 else (case try_selectors w source_name info soup rest articles' of
                         (found, consulted, e) \<Rightarrow> (found, selector # consulted, e)))
          else (case try_selectors w source_name info soup rest articles of
                  (found, consulted, e) \<Rightarrow> (found, selector # consulted, e)))"

text \<open>The \<^verbatim>\<open>try\<close> block of \<open>scrape_source\<close>, started with \<^verbatim>\<open>articles = []\<close>.\<close>

definition scrape_source_try ::
  "web \<Rightarrow> string \<Rightarrow> source_info \<Rightarrow> article list \<times> string list \<times> exn option" where
  "scrape_source_try w source_name info =
     (case requests_get w (src_url info) of
        Inl e \<Rightarrow> ([], [], Some e)
      | Inr response_text \<Rightarrow>
          (case BeautifulSoup w response_text of
             Inl e \<Rightarrow> ([], [], Some e)
           | Inr soup \<Rightarrow> try_selectors w source_name info soup selectors []))"

text \<open>
  \<open>scrape_source\<close>: the handler prints and falls through to
  \<^verbatim>\<open>return articles\<close>. \<open>Inr\<close> is a normal return; no path gives \<open>Inl\<close>.
\<close>

definition scrape_source :: "web \<Rightarrow> string \<Rightarrow> source_info \<Rightarrow> exn + article list" where
  "scrape_source w source_name info =
     (case scrape_source_try w source_name info of
        (articles, consulted, caught) \<Rightarrow> Inr articles)"

definition consulted_selectors :: "web \<Rightarrow> string \<Rightarrow> source_info \<Rightarrow> string list" where
  "consulted_selectors w source_name info = fst (snd (scrape_source_try w source_name info))"



text \<open>
  Vocabulary for the selector loop: what one selector yields on its own, and
  whether the loop ends at it.
\<close>

definition selector_yield ::
  "web \<Rightarrow> string \<Rightarrow> source_info \<Rightarrow> page \<Rightarrow> string \<Rightarrow> article list \<times> exn option" where
  "selector_yield w source_name info soup selector =
     (case select soup selector of
        Inl e \<Rightarrow> ([], Some e)
      | Inr els \<Rightarrow> extract_candidates w source_name info (take 5 els) [])"

definition stops_at :: "web \<Rightarrow> string \<Rightarrow> source_info \<Rightarrow> page \<Rightarrow> string \<Rightarrow> bool" where
  "stops_at w source_name info soup selector =
     (fst (selector_yield w source_name info soup selector) \<noteq> []
      \<or> snd (selector_yield w source_name info soup selector) \<noteq> None)"


text \<open>Concrete pages.\<close>

definition example_source :: source_info where
  "example_source = \<lparr>src_url = ''https://krebsonsecurity.com'', src_region = ''North America''\<rparr>"

definition teaser_page :: page where
  "teaser_page =
    [(''article'', Inr [[]]),
     (''.post'', Inr [[(''h2 a'', Inr \<lparr>href = Some (AttrStr ''/breach''), tag_text = '' Breach ''\<rparr>)]])]"

definition teaser_web :: web where
  "teaser_web =
    \<lparr>requests_get = (\<lambda>u. Inr ''<html>''),
     BeautifulSoup = (\<lambda>t. Inr teaser_page),
     trafilatura = (\<lambda>u. Inr None)\<rparr>"








definition url_ok :: "article \<Rightarrow> bool" where
  "url_ok a = (art_url a \<noteq> [] \<and> startswith (art_url a) ''http'')"

section \<open>models.py: the store and the session\<close>

text \<open>
  The two tables. A column holds a string or NULL; \<open>id\<close> and \<open>created_at\<close>
  are filled in by the store when the row is written (\<open>created_at\<close> is a clock
  reading, a number here).
\<close>

record news_article =
  na_id :: "nat option"
  na_title :: cell
  na_url :: cell
  na_source :: cell
  na_region :: cell
  na_summary :: cell
  na_category :: cell
  na_created_at :: "nat option"
  na_threat_type :: cell

record security_recommendation =
  sr_id :: "nat option"
  sr_threat_type :: cell
  sr_recommendation :: cell
  sr_created_at :: "nat option"

record database =
  news_articles :: "news_article list"
  security_recommendations :: "security_recommendation list"

text \<open>
  A session of \<^verbatim>\<open>sessionmaker(autocommit=False, autoflush=False)\<close>: the committed
  state, the state its open transaction sees, and the objects added but not yet
  flushed. With \<^verbatim>\<open>autoflush=False\<close> a query does not flush: it reads the
  transaction's tables and does not see the pending objects.
\<close>

record session =
  durable :: database
  txn :: database
  pending_articles :: "news_article list"
  pending_recommendations :: "security_recommendation list"

definition SessionLocal :: "database \<Rightarrow> session" where
  "SessionLocal db =
     \<lparr>durable = db, txn = db, pending_articles = [], pending_recommendations = []\<rparr>"

text \<open>
  Failures of the store that the code cannot foresee (connection lost, statement
  rejected): which query, which \<^verbatim>\<open>add\<close>, whether the bulk delete, whether the
  commit raises. With them goes what depends on the database behind
  \<^verbatim>\<open>DATABASE_URL\<close>: whether it enforces the declared \<^verbatim>\<open>String(n)\<close> lengths
  (PostgreSQL does, SQLite does not).
\<close>

record db_faults =
  query_fails :: "nat \<Rightarrow> bool"
  delete_fails :: bool
  add_fails :: "nat \<Rightarrow> bool"
  commit_fails :: bool
  enforces_lengths :: bool

definition no_faults :: db_faults where
  "no_faults =
     \<lparr>query_fails = (\<lambda>k. False), delete_fails = False,
      add_fails = (\<lambda>k. False), commit_fails = False, enforces_lengths = True\<rparr>"

text \<open>\<^verbatim>\<open>db.query(NewsArticle).filter_by(url=u).first()\<close>\<close>

definition first_by_url :: "session \<Rightarrow> cell \<Rightarrow> news_article option" where
  "first_by_url s u = find (\<lambda>r. na_url r = u) (news_articles (txn s))"

text \<open>\<^verbatim>\<open>db.add(obj)\<close>\<close>

definition add_article :: "session \<Rightarrow> news_article \<Rightarrow> session" where
  "add_article s a = s\<lparr>pending_articles := pending_articles s @ [a]\<rparr>"

definition add_recommendation :: "session \<Rightarrow> security_recommendation \<Rightarrow> session" where
  "add_recommendation s r = s\<lparr>pending_recommendations := pending_recommendations s @ [r]\<rparr>"

text \<open>\<^verbatim>\<open>db.query(SecurityRecommendation).delete()\<close>: a DELETE inside the transaction.\<close>

definition delete_recommendations :: "session \<Rightarrow> session" where
  "delete_recommendations s = s\<lparr>txn := (txn s)\<lparr>security_recommendations := []\<rparr>\<rparr>"

text \<open>
  The flush writes the pending rows in the order they were added. A row gets its
  column defaults where the object holds None (\<open>region\<close> defaults to Global,
  \<open>created_at\<close> to the clock) and its \<open>id\<close>. The table constraints are those
  of the column declarations: \<open>title\<close>, \<open>url\<close> and \<open>source\<close> are
  \<^verbatim>\<open>nullable=False\<close> and \<open>url\<close> is \<^verbatim>\<open>unique=True\<close>; \<open>threat_type\<close> and
  \<open>recommendation\<close> of a recommendation are \<^verbatim>\<open>nullable=False\<close>; the
  \<^verbatim>\<open>String(n)\<close> columns hold at most \<open>n\<close> characters where the database
  enforces it. A violated constraint raises.
\<close>

definition fresh_id :: "nat option list \<Rightarrow> nat" where
  "fresh_id ids = Suc (fold max (map (\<lambda>i. case i of None \<Rightarrow> 0 | Some n \<Rightarrow> n) ids) 0)"

definition fits :: "nat \<Rightarrow> cell \<Rightarrow> bool" where
  "fits n c = (case c of None \<Rightarrow> True | Some v \<Rightarrow> length v \<le> n)"

definition article_row :: "nat \<Rightarrow> news_article \<Rightarrow> news_article" where
  "article_row now a =
     a\<lparr>na_region := (case na_region a of None \<Rightarrow> Some ''Global'' | Some r \<Rightarrow> Some r),
       na_created_at := Some now\<rparr>"

definition article_fits :: "news_article \<Rightarrow> bool" where
  "article_fits a =
     (fits 500 (na_title a) \<and> fits 1000 (na_url a) \<and> fits 100 (na_source a)
      \<and> fits 100 (na_region a) \<and> fits 100 (na_category a) \<and> fits 100 (na_threat_type a))"

fun insert_articles ::
  "db_faults \<Rightarrow> nat \<Rightarrow> news_article list \<Rightarrow> news_article list \<Rightarrow> exn + news_article list" where
  "insert_articles f now [] table = Inr table"
| "insert_articles f now (a # pending) table =
     (if na_title a = None \<or> na_url a = None \<or> na_source a = None then Inl IntegrityError
      else if enforces_lengths f \<and> \<not> article_fits (article_row now a)
        then Inl (External ''value too long'')
      else if na_url a \<in> set (map na_url table) then Inl IntegrityError
      else insert_articles f now pending
             (table @ [(article_row now a)\<lparr>na_id := Some (fresh_id (map na_id table))\<rparr>]))"

fun insert_recommendations ::
  "db_faults \<Rightarrow> nat \<Rightarrow> security_recommendation list \<Rightarrow> security_recommendation list
     \<Rightarrow> exn + security_recommendation list" where
  "insert_recommendations f now [] table = Inr table"
| "insert_recommendations f now (r # pending) table =
     (if sr_threat_type r = None \<or> sr_recommendation r = None then Inl IntegrityError
      else if enforces_lengths f \<and> \<not> fits 100 (sr_threat_type r)
        then Inl (External ''value too long'')
      else insert_recommendations f now pending
             (table @ [r\<lparr>sr_id := Some (fresh_id (map sr_id table)),
                         sr_created_at := Some now\<rparr>]))"

definition flush :: "db_faults \<Rightarrow> nat \<Rightarrow> session \<Rightarrow> exn + session" where
  "flush f now s =
     (case insert_articles f now (pending_articles s) (news_articles (txn s)) of
        Inl e \<Rightarrow> Inl e
      | Inr articles \<Rightarrow>
          (case insert_recommendations f now (pending_recommendations s)
                  (security_recommendations (txn s)) of
             Inl e \<Rightarrow> Inl e
           | Inr recs \<Rightarrow>
               Inr (s\<lparr>txn := \<lparr>news_articles = articles, security_recommendations = recs\<rparr>,
                      pending_articles := [], pending_recommendations := []\<rparr>)))"

text \<open>
  \<^verbatim>\<open>db.commit()\<close>: flush, then make the transaction's state the committed one.
  The pair is the session afterwards and the exception raised, if any.
\<close>

definition commit :: "db_faults \<Rightarrow> nat \<Rightarrow> session \<Rightarrow> session \<times> exn option" where
  "commit f now s =
     (case flush f now s of
        Inl e \<Rightarrow> (s, Some e)
      | Inr s' \<Rightarrow>
          if commit_fails f then (s', Some (External ''commit''))
          else (s'\<lparr>durable := txn s'\<rparr>, None))"

text \<open>\<^verbatim>\<open>db.rollback()\<close>: the transaction's changes and the pending objects are dropped.\<close>

definition rollback :: "session \<Rightarrow> session" where
  "rollback s = s\<lparr>txn := durable s, pending_articles := [], pending_recommendations := []\<rparr>"

text \<open>\<^verbatim>\<open>db.close()\<close> ends the session; what stays is the committed state.\<close>

definition close :: "session \<Rightarrow> database" where
  "close s = durable s"

section \<open>utils.py: saving articles\<close>

text \<open>
  The \<^verbatim>\<open>NewsArticle(...)\<close> constructor call of \<open>save_to_db\<close>: four subscripts,
  which raise KeyError on a missing key, and three \<^verbatim>\<open>get\<close> with a default.
\<close>

definition new_article :: "row \<Rightarrow> exn + news_article" where
  "new_article item =
     (case subscript item ''title'' of Inl e \<Rightarrow> Inl e | Inr title \<Rightarrow>
      case subscript item ''url'' of Inl e \<Rightarrow> Inl e | Inr url \<Rightarrow>
      case subscript item ''source'' of Inl e \<Rightarrow> Inl e | Inr source \<Rightarrow>
      case subscript item ''summary'' of Inl e \<Rightarrow> Inl e | Inr summary \<Rightarrow>
        Inr \<lparr>na_id = None, na_title = title, na_url = url, na_source = source,
             na_region = dict_get item ''region'' (Some ''Global''),
             na_summary = summary,
             na_category = dict_get item ''category'' (Some ''Uncategorized''),
             na_created_at = None,
             na_threat_type = dict_get item ''threat_type'' (Some ''Other'')\<rparr>)"

text \<open>
  The loop of \<open>save_to_db\<close> over the items, the \<open>k\<close>-th item first; the result
  is the session when the loop ended and the exception that ended it, if any.
\<close>

fun save_items :: "db_faults \<Rightarrow> nat \<Rightarrow> row list \<Rightarrow> session \<Rightarrow> session \<times> exn option" where
  "save_items f k [] s = (s, None)"
| "save_items f k (item # news_items) s =
     (case subscript item ''url'' of
        Inl e \<Rightarrow> (s, Some e)
      | Inr u \<Rightarrow>
          if query_fails f k then (s, Some (External ''query''))
          else (case first_by_url s u of
                  Some existing \<Rightarrow> save_items f (Suc k) news_items s
                | None \<Rightarrow>
                    (case new_article item of
                       Inl e \<Rightarrow> (s, Some e)
                     | Inr article \<Rightarrow>
                         if add_fails f k then (s, Some (External ''add''))
                         else save_items f (Suc k) news_items (add_article s article))))"

definition save_to_db :: "db_faults \<Rightarrow> nat \<Rightarrow> database \<Rightarrow> row list \<Rightarrow> database" where
  "save_to_db f now db news_items =
     (let s0 = SessionLocal db in
      case save_items f 0 news_items s0 of
        (s1, Some e) \<Rightarrow> close (rollback s1)
      | (s1, None) \<Rightarrow>
          (case commit f now s1 of
             (s2, Some e) \<Rightarrow> close (rollback s2)
           | (s2, None) \<Rightarrow> close s2))"

definition records_with_url :: "database \<Rightarrow> cell \<Rightarrow> news_article list" where
  "records_with_url db u = filter (\<lambda>r. na_url r = u) (news_articles db)"

definition empty_database :: database where
  "empty_database = \<lparr>news_articles = [], security_recommendations = []\<rparr>"

definition first_report :: row where
  "first_report =
     [(''title'', Some ''Bank breached''), (''url'', Some ''https://thehackernews.com/bank''),
      (''source'', Some ''The Hacker News''), (''region'', Some ''Global''),
      (''summary'', Some ''Attackers took records.''), (''category'', Some ''Data Breach''),
      (''threat_type'', Some ''Data Breach'')]"

definition second_report :: row where
  "second_report =
     [(''title'', Some ''Bank breach: what we know''), (''url'', Some ''https://thehackernews.com/bank''),
      (''source'', Some ''The Hacker News''), (''region'', Some ''Global''),
      (''summary'', Some ''A follow-up.''), (''category'', Some ''Data Breach''),
      (''threat_type'', Some ''Data Breach'')]"

definition other_report :: row where
  "other_report =
     [(''title'', Some ''Patch released''), (''url'', Some ''https://thehackernews.com/patch''),
      (''source'', Some ''The Hacker News''), (''region'', Some ''Global''),
      (''summary'', Some ''Update now.''), (''category'', Some ''Vulnerability''),
      (''threat_type'', Some ''Zero-day Vulnerability'')]"

section \<open>classifier.py: recommendations\<close>

text \<open>
  The inference service, asked for advice on one threat type: the text of the
  first choice (which may be None), or an exception.
\<close>

type_synonym advisor = "string \<Rightarrow> exn + cell"

definition generate_recommendations :: "advisor \<Rightarrow> string \<Rightarrow> cell" where
  "generate_recommendations advise threat_type =
     (case advise threat_type of
        Inr content \<Rightarrow> content
      | Inl e \<Rightarrow>
          Some (''Standard protection measures against '' @ threat_type @ '':'' @ [CHR 0x0A]
                @ ''- Use strong passwords'' @ [CHR 0x0A]
                @ ''- Enable two-factor authentication'' @ [CHR 0x0A]
                @ ''- Keep systems updated'' @ [CHR 0x0A]
                @ ''- Use antivirus software''))"

text \<open>The calls made on the session, in order, whether or not they succeed.\<close>

datatype db_op = OpDelete | OpAdd string | OpCommit | OpRollback | OpClose

text \<open>
  \<^verbatim>\<open>top_threats\<close>: the column, its non-null values, the three most common.
\<close>

definition top_threats :: "dataframe \<Rightarrow> exn + string list" where
  "top_threats articles_df =
     (case df_getitem articles_df ''threat_type'' of
        Inl e \<Rightarrow> Inl e
      | Inr col \<Rightarrow>
          (let threat_counts = Counter (dropna col)
           in Inr (map fst (most_common 3 threat_counts))))"

text \<open>The loop that adds one recommendation per top threat, the \<open>k\<close>-th first.\<close>

fun add_recommendations ::
  "advisor \<Rightarrow> db_faults \<Rightarrow> nat \<Rightarrow> string list \<Rightarrow> session
     \<Rightarrow> session \<times> db_op list \<times> exn option" where
  "add_recommendations advise f k [] s = (s, [], None)"
| "add_recommendations advise f k (top_threat # rest) s =
     (let recommendation = generate_recommendations advise top_threat;
          new_rec = \<lparr>sr_id = None, sr_threat_type = Some top_threat,
                     sr_recommendation = recommendation, sr_created_at = None\<rparr>
      in if add_fails f k then (s, [OpAdd top_threat], Some (External ''add''))
         else (case add_recommendations advise f (Suc k) rest (add_recommendation s new_rec) of
                 (s', ops, e) \<Rightarrow> (s', OpAdd top_threat # ops, e)))"

text \<open>The inner \<^verbatim>\<open>try\<close> block: delete, add, commit.\<close>

definition replace_recommendations ::
  "advisor \<Rightarrow> db_faults \<Rightarrow> nat \<Rightarrow> string list \<Rightarrow> session
     \<Rightarrow> session \<times> db_op list \<times> exn option" where
  "replace_recommendations advise f now tops s =
     (if delete_fails f then (s, [OpDelete], Some (External ''delete''))
      else (case add_recommendations advise f 0 tops (delete_recommendations s) of
              (s1, ops, Some e) \<Rightarrow> (s1, OpDelete # ops, Some e)
            | (s1, ops, None) \<Rightarrow>
                (case commit f now s1 of
                   (s2, e) \<Rightarrow> (s2, OpDelete # ops @ [OpCommit], e))))"

text \<open>
  \<open>update_recommendations\<close>: the store afterwards and the calls made on the
  session. The outer handler catches what the first lines raise (a frame without
  the column); the inner handler rolls back; \<^verbatim>\<open>finally\<close> closes. The session
  comes from \<^verbatim>\<open>next(get_db())\<close>: the generator is dropped at once, and its
  \<^verbatim>\<open>finally\<close> closes the fresh session before the first use (a closed session
  opens a new transaction when it is used again), so the calls start with a close.
\<close>

definition update_recommendations ::
  "advisor \<Rightarrow> db_faults \<Rightarrow> nat \<Rightarrow> database \<Rightarrow> dataframe \<Rightarrow> database \<times> db_op list" where
  "update_recommendations advise f now db articles_df =
     (if df_empty articles_df then (db, [])
      else (case top_threats articles_df of
              Inl e \<Rightarrow> (db, [])
            | Inr tops \<Rightarrow>
                if tops = [] then (db, [])
                else (case replace_recommendations advise f now tops (SessionLocal db) of
                        (s, ops, Some db_error) \<Rightarrow>
                          (close (rollback s), OpClose # ops @ [OpRollback, OpClose])
                      | (s, ops, None) \<Rightarrow> (close s, OpClose # ops @ [OpClose]))))"

text \<open>
  A persistence operation of the replacement fails: the delete, one of the adds,
  the flush (a recommendation text that is None violates \<^verbatim>\<open>nullable=False\<close>, a
  threat type of more than 100 characters does not fit where lengths are enforced),
  or the commit.
\<close>

definition persistence_fails :: "advisor \<Rightarrow> db_faults \<Rightarrow> string list \<Rightarrow> bool" where
  "persistence_fails advise f tops =
     (delete_fails f
      \<or> list_ex (add_fails f) [0 ..< length tops]
      \<or> list_ex (\<lambda>t. generate_recommendations advise t = None) tops
      \<or> (enforces_lengths f \<and> list_ex (\<lambda>t. 100 < length t) tops)
      \<or> commit_fails f)"

definition stored_advice :: database where
  "stored_advice =
     \<lparr>news_articles = [],
      security_recommendations =
        [\<lparr>sr_id = Some 1, sr_threat_type = Some ''DDoS'',
          sr_recommendation = Some ''Use a scrubbing service.'', sr_created_at = Some 3\<rparr>]\<rparr>"

definition helpful_advisor :: advisor where
  "helpful_advisor = (\<lambda>t. Inr (Some (''Beware of '' @ t)))"

definition commit_down :: db_faults where
  "commit_down = no_faults\<lparr>commit_fails := True\<rparr>"

definition null_batch :: "row list" where
  "null_batch = [[(''title'', Some ''a''), (''threat_type'', None)], [(''title'', Some ''b'')]]"

section \<open>classifier.py: classifying one article\<close>

text \<open>
  The values an article dict and a decoded JSON document can hold. The classifier
  copies whatever the decoded document holds under its two keys.
\<close>

datatype pyval =
    PNone
  | PBool bool
  | PInt int
  | PFloat real
  | PStr string
  | PList "pyval list"
  | PDict "(string \<times> pyval) list"

type_synonym pydict = "(string \<times> pyval) list"

text \<open>\<^verbatim>\<open>d[k] = v\<close>: the key keeps its place, a new key goes last.\<close>

fun setitem :: "('k \<times> 'v) list \<Rightarrow> 'k \<Rightarrow> 'v \<Rightarrow> ('k \<times> 'v) list" where
  "setitem [] k v = [(k, v)]"
| "setitem ((k', v') # d) k v =
     (if k' = k then (k, v) # d else (k', v') # setitem d k v)"

text \<open>\<^verbatim>\<open>x[:1000]\<close>: strings and lists can be sliced, the other values raise TypeError.\<close>

fun slice_to :: "nat \<Rightarrow> pyval \<Rightarrow> exn + pyval" where
  "slice_to n (PStr s) = Inr (PStr (take n s))"
| "slice_to n (PList xs) = Inr (PList (take n xs))"
| "slice_to n v = Inl TypeError"

text \<open>\<^verbatim>\<open>result.get(k, default)\<close>: only a dict has \<^verbatim>\<open>get\<close>.\<close>

fun py_get :: "pyval \<Rightarrow> string \<Rightarrow> pyval \<Rightarrow> exn + pyval" where
  "py_get (PDict d) k dflt = Inr (dict_get d k dflt)"
| "py_get v k dflt = Inl AttributeError"

text \<open>
  The request to the inference service: the prompt is fixed but for the title and
  the first 1000 characters of the summary. The service answers with the content
  of the first choice, or raises; \<^verbatim>\<open>json.loads\<close> decodes the content, or raises.
\<close>

record classification_request =
  req_title :: pyval
  req_content :: pyval

type_synonym completions = "classification_request \<Rightarrow> exn + pyval"

type_synonym json_loads = "pyval \<Rightarrow> exn + pyval"

text \<open>
  The \<^verbatim>\<open>try\<close> block of \<open>classify_article\<close>: the article as it stands when the
  block ends, and the exception that ended it, if any.
\<close>

definition classify_article_try ::
  "completions \<Rightarrow> json_loads \<Rightarrow> pydict \<Rightarrow> pydict \<times> exn option" where
  "classify_article_try create loads article =
     (case subscript article ''title'' of Inl e \<Rightarrow> (article, Some e) | Inr title \<Rightarrow>
      case subscript article ''summary'' of Inl e \<Rightarrow> (article, Some e) | Inr summary \<Rightarrow>
      case slice_to 1000 summary of Inl e \<Rightarrow> (article, Some e) | Inr content \<Rightarrow>
      case create \<lparr>req_title = title, req_content = content\<rparr> of
        Inl e \<Rightarrow> (article, Some e) | Inr message_content \<Rightarrow>
      case loads message_content of Inl e \<Rightarrow> (article, Some e) | Inr result \<Rightarrow>
      case py_get result ''category'' (PStr ''Uncategorized'') of
        Inl e \<Rightarrow> (article, Some e) | Inr category \<Rightarrow>
      case py_get result ''threat_type'' (PStr ''Other'') of
        Inl e \<Rightarrow> (setitem article ''category'' category, Some e)
      | Inr threat_type \<Rightarrow>
          (setitem (setitem article ''category'' category) ''threat_type'' threat_type, None))"

text \<open>
  \<open>classify_article\<close>: the handler sets the two defaults on the article and
  returns it. \<open>Inr\<close> is a normal return; no path gives \<open>Inl\<close>.
\<close>

definition classify_article :: "completions \<Rightarrow> json_loads \<Rightarrow> pydict \<Rightarrow> exn + pydict" where
  "classify_article create loads article =
     (case classify_article_try create loads article of
        (article', None) \<Rightarrow> Inr article'
      | (article', Some e) \<Rightarrow>
          Inr (setitem (setitem article' ''category'' (PStr ''Uncategorized''))
                 ''threat_type'' (PStr ''Other'')))"

definition fallback :: "pydict \<Rightarrow> pydict" where
  "fallback article =
     setitem (setitem article ''category'' (PStr ''Uncategorized''))
       ''threat_type'' (PStr ''Other'')"

definition raw_article :: pydict where
  "raw_article =
     [(''title'', PStr ''Bank breached''), (''url'', PStr ''https://thehackernews.com/bank''),
      (''source'', PStr ''The Hacker News''), (''region'', PStr ''Global''),
      (''summary'', PStr ''Attackers took records.'')]"

definition service_down :: completions where
  "service_down = (\<lambda>request. Inl (External ''connection refused''))"

definition service_up :: completions where
  "service_up = (\<lambda>request. Inr (PStr ''{...}''))"

definition loads_malformed :: json_loads where
  "loads_malformed = (\<lambda>content. Inl (External ''JSONDecodeError''))"

definition loads_breach :: json_loads where
  "loads_breach = (\<lambda>content. Inr (PDict [(''category'', PStr ''Data Breach'')]))"


section \<open>threat_map.py: coordinates\<close>

text \<open>
  Coordinates are pairs of numbers; the table's decimal literals are read as the
  numbers they write. No arithmetic is done on them.
\<close>

type_synonym coords = "real \<times> real"

definition default_coords :: "(string \<times> coords) list" where
  "default_coords =
    [(''Kenya'', (-1.2921, 36.8219)),
     (''Global'', (0, 0)),
     (''USA'', (37.0902, -95.7129)),
     (''UK'', (51.5074, -0.1278)),
     (''EU'', (50.8503, 4.3517)),
     (''Africa'', (0.0236, 37.9062)),
     (''Asia'', (34.0479, 100.6197)),
     (''Europe'', (54.5260, 15.2551)),
     (''North America'', (54.5260, -105.2551)),
     (''South America'', (-8.7832, -55.4915)),
     (''Australia'', (-25.2744, 133.7751))]"

text \<open>
  \<^verbatim>\<open>geolocator.geocode(region)\<close>: a location, None, or an exception. The body of
  \<open>get_coordinates\<close> returns the coordinates and the regions it sent to the
  geocoder. Its four handlers differ in what they print and how long they sleep;
  each falls through to the last line.
\<close>

type_synonym geocoder = "string \<Rightarrow> exn + coords option"

definition get_coordinates :: "geocoder \<Rightarrow> string \<Rightarrow> coords \<times> string list" where
  "get_coordinates geocode region =
     (case map_of default_coords region of
        Some c \<Rightarrow> (c, [])
      | None \<Rightarrow>
          (case geocode region of
             Inr (Some location) \<Rightarrow> (location, [region])
           | Inr None \<Rightarrow> (dict_get default_coords ''Global'' (0, 0), [region])
           | Inl GeocoderRateLimited \<Rightarrow> (dict_get default_coords ''Global'' (0, 0), [region])
           | Inl GeocoderTimedOut \<Rightarrow> (dict_get default_coords ''Global'' (0, 0), [region])
           | Inl GeocoderUnavailable \<Rightarrow> (dict_get default_coords ''Global'' (0, 0), [region])
           | Inl e \<Rightarrow> (dict_get default_coords ''Global'' (0, 0), [region])))"

text \<open>
  \<^verbatim>\<open>@lru_cache(maxsize=128)\<close>: the cache holds at most 128 results, the most
  recently used first; a hit returns the stored result without running the body.
\<close>

type_synonym coords_cache = "(string \<times> coords) list"

definition cached_get_coordinates ::
  "geocoder \<Rightarrow> coords_cache \<Rightarrow> string \<Rightarrow> coords \<times> string list \<times> coords_cache" where
  "cached_get_coordinates geocode cache region =
     (case map_of cache region of
        Some c \<Rightarrow> (c, [], (region, c) # filter (\<lambda>entry. fst entry \<noteq> region) cache)
      | None \<Rightarrow>
          (case get_coordinates geocode region of
             (c, calls) \<Rightarrow> (c, calls, take 128 ((region, c) # cache))))"

definition geocoder_down :: geocoder where
  "geocoder_down = (\<lambda>region. Inl GeocoderTimedOut)"

definition geocoder_nairobi :: geocoder where
  "geocoder_nairobi = (\<lambda>region. Inr (Some (-1.2864, 36.8172)))"

text \<open>The cache after a history of calls, each with the geocoder's behaviour then.\<close>

fun cache_after :: "(geocoder \<times> string) list \<Rightarrow> coords_cache" where
  "cache_after [] = []"
| "cache_after ((geocode, region) # earlier) =
     snd (snd (cached_get_coordinates geocode (cache_after earlier) region))"

definition kenya_entries :: "coords_cache \<Rightarrow> bool" where
  "kenya_entries cache = list_all (\<lambda>entry. fst entry = ''Kenya'' \<longrightarrow> snd entry = (-1.2921, 36.8219)) cache"

section \<open>Severity scoring: proofs\<close>

lemma severity_mapping_range:
  "map_of severity_mapping t = Some v \<Longrightarrow> 1 \<le> v \<and> v \<le> 5"
  unfolding severity_mapping_def
  by (simp split: if_splits)

lemma base_severity_reference_get:
  "dict_get severity_mapping t 1 = base_severity_reference t"
proof (cases "map_of severity_mapping t")
  case None
  then have "t \<notin> set (map fst severity_mapping)"
    by (simp add: map_of_eq_None_iff)
  with None show ?thesis
    by (simp add: dict_get_def base_severity_reference_def)
next
  case (Some v)
  then have "t \<in> set (map fst severity_mapping)"
    by (metis map_of_eq_None_iff option.distinct(1) set_map)
  with Some show ?thesis
    by (simp add: dict_get_def base_severity_reference_def)
qed

lemma base_severity_reference_range:
  "1 \<le> base_severity_reference t \<and> base_severity_reference t \<le> 5"
proof (cases "map_of severity_mapping t")
  case None
  then show ?thesis
    using base_severity_reference_get [of t] by (simp add: dict_get_def)
next
  case (Some v)
  then show ?thesis
    using base_severity_reference_get [of t] severity_mapping_range [OF Some]
    by (simp add: dict_get_def)
qed

lemma category_modifier_value:
  "dict_get category_modifiers c 0 = (if c \<in> set sensitive_categories then 1 else 0)"
  by (simp add: dict_get_def category_modifiers_def sensitive_categories_def)

lemma empty_not_sensitive: "[] \<notin> set sensitive_categories"
  by (simp add: sensitive_categories_def)

lemma calculate_threat_severity_refines:
  "calculate_threat_severity t c = severity_reference t c"
proof (cases c)
  case None
  then show ?thesis
    by (simp add: calculate_threat_severity_def severity_reference_def
        base_severity_reference_get)
next
  case (Some s)
  have r: "base_severity_reference t \<le> 5"
    using base_severity_reference_range by blast
  show ?thesis
  proof (cases "s \<in> set sensitive_categories")
    case True
    then have "s \<noteq> []" using empty_not_sensitive by auto
    with True Some show ?thesis
      by (simp add: calculate_threat_severity_def severity_reference_def Let_def
          base_severity_reference_get category_modifier_value image_iff)
  next
    case False
    with Some r show ?thesis
      by (auto simp add: calculate_threat_severity_def severity_reference_def Let_def
          base_severity_reference_get category_modifier_value image_iff)
  qed
qed

text \<open>
  C2. \<open>calculate_threat_severity\<close> equals the reference definition (table value,
  1 outside the table, plus one capped at five for the four sensitive categories);
  every result lies in 1..5; a threat type outside the table has base severity 1;
  and (Ransomware, Healthcare) scores 5.
\<close>

theorem calculate_threat_severity_reference:
  "calculate_threat_severity t c = severity_reference t c
   \<and> 1 \<le> calculate_threat_severity t c
   \<and> calculate_threat_severity t c \<le> 5
   \<and> (t \<notin> set (map fst severity_mapping) \<longrightarrow> calculate_threat_severity t None = 1)
   \<and> calculate_threat_severity ''Ransomware'' (Some ''Healthcare'') = 5"
proof -
  have range: "1 \<le> severity_reference t c \<and> severity_reference t c \<le> 5"
    using base_severity_reference_range [of t]
    by (auto simp add: severity_reference_def)
  have unknown: "t \<notin> set (map fst severity_mapping) \<longrightarrow> calculate_threat_severity t None = 1"
    by (simp add: calculate_threat_severity_refines severity_reference_def
        base_severity_reference_def)
  have example: "calculate_threat_severity ''Ransomware'' (Some ''Healthcare'') = 5"
    by (simp add: calculate_threat_severity_def dict_get_def severity_mapping_def
        category_modifiers_def)
  show ?thesis
    using range unknown example by (simp add: calculate_threat_severity_refines)
qed

theorem calculate_threat_severity_reference_witness:
  "''Botnet'' \<notin> set (map fst severity_mapping)
   \<and> calculate_threat_severity ''Botnet'' None = 1
   \<and> calculate_threat_severity ''Botnet'' (Some ''Government'') = 2
   \<and> severity_reference ''Botnet'' (Some ''Government'') = 2"
proof -
  have h: "''Botnet'' \<notin> set (map fst severity_mapping)"
    by (simp add: severity_mapping_def)
  have v: "severity_reference ''Botnet'' (Some ''Government'') = 2"
    using h by (simp add: severity_reference_def base_severity_reference_def
        sensitive_categories_def)
  show ?thesis
    using h v calculate_threat_severity_reference [of "''Botnet''" "Some ''Government''"]
    by simp
qed

section \<open>Trending threats: proofs\<close>

lemma set_uniq: "set (uniq xs) = set xs"
  by (induction xs) auto

lemma distinct_uniq: "distinct (uniq xs)"
  by (induction xs) (auto simp: set_uniq)

lemma keys_counter_add:
  "map fst (counter_add c x) = (if x \<in> set (map fst c) then map fst c else map fst c @ [x])"
  by (induction c x rule: counter_add.induct) auto

lemma keys_foldl_counter_add:
  "map fst (foldl counter_add c xs)
     = map fst c @ filter (\<lambda>y. y \<notin> set (map fst c)) (uniq xs)"
proof (induction xs arbitrary: c)
  case Nil
  then show ?case by simp
next
  case (Cons x xs)
  show ?case
  proof (cases "x \<in> set (map fst c)")
    case True
    then have "filter (\<lambda>y. y \<notin> set (map fst c)) (filter (\<lambda>y. y \<noteq> x) (uniq xs))
       = filter (\<lambda>y. y \<notin> set (map fst c)) (uniq xs)"
      by (auto intro: filter_cong)
    with True show ?thesis
      by (simp add: Cons.IH keys_counter_add)
  next
    case False
    have "filter (\<lambda>y. y \<notin> set (map fst c @ [x])) (uniq xs)
       = filter (\<lambda>y. y \<notin> set (map fst c)) (filter (\<lambda>y. y \<noteq> x) (uniq xs))"
      by (auto intro: filter_cong)
    with False show ?thesis
      by (simp add: Cons.IH keys_counter_add)
  qed
qed

lemma keys_Counter: "map fst (Counter xs) = uniq xs"
  by (simp add: Counter_def keys_foldl_counter_add)

lemma dict_get_counter_add:
  "dict_get (counter_add c x) y 0 = (if y = x then Suc (dict_get c x 0) else dict_get c y 0)"
  by (induction c x rule: counter_add.induct) (auto simp: dict_get_def)

lemma dict_get_foldl_counter_add:
  "dict_get (foldl counter_add c xs) y 0 = dict_get c y 0 + count_list xs y"
  by (induction xs arbitrary: c) (auto simp: dict_get_counter_add)

lemma dict_get_Counter: "dict_get (Counter xs) y 0 = count_list xs y"
proof -
  have "dict_get ([] :: ('a \<times> nat) list) y 0 = 0"
    by (simp add: dict_get_def)
  then show ?thesis
    by (simp add: Counter_def dict_get_foldl_counter_add)
qed

lemma Counter_entry:
  assumes "(x, n) \<in> set (Counter xs)"
  shows "n = count_list xs x"
proof -
  have "distinct (map fst (Counter xs))"
    by (simp add: keys_Counter distinct_uniq)
  with assms have "map_of (Counter xs) x = Some n"
    by simp
  then have "dict_get (Counter xs) x 0 = n"
    by (simp add: dict_get_def)
  then show ?thesis
    by (simp add: dict_get_Counter)
qed

lemma Counter_eq: "Counter xs = map (\<lambda>x. (x, count_list xs x)) (uniq xs)"
proof -
  have "map (\<lambda>p. (fst p, count_list xs (fst p))) (Counter xs) = map (\<lambda>p. p) (Counter xs)"
    by (rule map_cong) (auto dest: Counter_entry simp: prod_eq_iff)
  then have "Counter xs = map (\<lambda>x. (x, count_list xs x)) (map fst (Counter xs))"
    by (simp add: comp_def)
  then show ?thesis
    by (simp add: keys_Counter)
qed

lemma first_index_order_uniq:
  "sorted_wrt (\<lambda>a b. first_index xs a < first_index xs b) (uniq xs)"
proof (induction xs)
  case Nil
  then show ?case by simp
next
  case (Cons x xs)
  have "sorted_wrt (\<lambda>a b. first_index xs a < first_index xs b) (filter (\<lambda>y. y \<noteq> x) (uniq xs))"
    using Cons.IH by (rule sorted_wrt_filter)
  then have "sorted_wrt (\<lambda>a b. first_index (x # xs) a < first_index (x # xs) b)
      (filter (\<lambda>y. y \<noteq> x) (uniq xs))"
    by (rule sorted_wrt_mono_rel [rotated]) auto
  then show ?case by auto
qed

lemma stable_sorted_refines:
  fixes key :: "'a \<Rightarrow> int"
  assumes "sorted (map key S)"
    and "\<And>k. sorted_wrt R (filter (\<lambda>y. key y = k) S)"
  shows "sorted_wrt (\<lambda>a b. key a < key b \<or> (key a = key b \<and> R a b)) S"
  using assms
proof (induction S)
  case Nil
  then show ?case by simp
next
  case (Cons a S)
  have le: "\<forall>b\<in>set S. key a \<le> key b"
    using Cons.prems(1) by simp
  have tail: "sorted_wrt R (filter (\<lambda>y. key y = k) S)" for k
    using Cons.prems(2) [of k] by (cases "key a = k") simp_all
  have "sorted (map key S)"
    using Cons.prems(1) by simp
  then have ih: "sorted_wrt (\<lambda>a b. key a < key b \<or> (key a = key b \<and> R a b)) S"
    using tail by (rule Cons.IH)
  have "key a < key b \<or> (key a = key b \<and> R a b)" if b: "b \<in> set S" for b
  proof (cases "key a = key b")
    case True
    have "sorted_wrt R (a # filter (\<lambda>y. key y = key a) S)"
      using Cons.prems(2) [of "key a"] by simp
    with b True show ?thesis by simp
  next
    case False
    with le b show ?thesis by fastforce
  qed
  with ih show ?case by simp
qed

lemma sorted_wrt_take_rest:
  assumes "sorted_wrt R S" and "a \<in> set (take n S)" and "b \<in> set S"
    and "b \<notin> set (take n S)"
  shows "R a b"
proof -
  have "set S = set (take n S) \<union> set (drop n S)"
    by (metis append_take_drop_id set_append)
  with assms(3,4) have "b \<in> set (drop n S)"
    by simp
  moreover have "sorted_wrt R (take n S @ drop n S)"
    using assms(1) by (simp only: append_take_drop_id)
  ultimately show ?thesis
    using assms(2) unfolding sorted_wrt_append by simp
qed

lemma ranking_sorted_Counter:
  "sorted_wrt (\<lambda>a b. ranks_before vs (fst a) (fst b))
     (sort_key (\<lambda>p. - int (snd p)) (Counter vs))"
proof -
  let ?key = "\<lambda>p :: 'a \<times> nat. - int (snd p)"
  let ?R = "\<lambda>a b :: 'a \<times> nat. first_index vs (fst a) < first_index vs (fst b)"
  let ?S = "sort_key ?key (Counter vs)"
  have "sorted_wrt ?R (Counter vs)"
    using first_index_order_uniq [of vs] by (simp add: Counter_eq sorted_wrt_map)
  then have "sorted_wrt ?R (filter (\<lambda>y. ?key y = k) (Counter vs))" for k
    by (rule sorted_wrt_filter)
  then have st: "sorted_wrt ?R (filter (\<lambda>y. ?key y = k) ?S)" for k
    by (simp only: sort_key_stable)
  have "sorted (map ?key ?S)"
    by (rule sorted_sort_key)
  then have "sorted_wrt (\<lambda>a b. ?key a < ?key b \<or> (?key a = ?key b \<and> ?R a b)) ?S"
    using st by (rule stable_sorted_refines)
  then show ?thesis
  proof (rule sorted_wrt_mono_rel [rotated])
    fix a b :: "'a \<times> nat"
    assume a: "a \<in> set ?S" and b: "b \<in> set ?S"
      and r: "?key a < ?key b \<or> (?key a = ?key b \<and> ?R a b)"
    have "snd a = count_list vs (fst a)"
      using a Counter_entry [of "fst a" "snd a" vs] by simp
    moreover have "snd b = count_list vs (fst b)"
      using b Counter_entry [of "fst b" "snd b" vs] by simp
    ultimately show "ranks_before vs (fst a) (fst b)"
      using r by (auto simp: ranks_before_def)
  qed
qed

lemma top3_properties:
  fixes vs :: "string list"
  defines "r \<equiv> map (\<lambda>(t, c). \<lparr>threat = t, count = c\<rparr>) (most_common 3 (Counter vs))"
  shows "length r = min 3 (card (set vs))"
    and "distinct (map threat r)"
    and "set (map threat r) \<subseteq> set vs"
    and "\<forall>e\<in>set r. count e = count_list vs (threat e)"
    and "sorted_wrt (\<lambda>a b. ranks_before vs (threat a) (threat b)) r"
    and "\<forall>v\<in>set vs - set (map threat r). \<forall>e\<in>set r. ranks_before vs (threat e) v"
proof -
  let ?S = "sort_key (\<lambda>p. - int (snd p)) (Counter vs)"
  let ?mk = "\<lambda>(t, c). \<lparr>threat = t, count = c\<rparr>"
  have r: "r = map ?mk (take 3 ?S)"
    by (simp add: r_def most_common_def)
  have thr: "map threat r = map fst (take 3 ?S)"
    by (simp add: r comp_def case_prod_beta)
  have setS: "set ?S = set (Counter vs)"
    by simp
  have keys: "fst ` set ?S = set vs"
    using keys_Counter [of vs] set_uniq [of vs] by (metis setS set_map)
  have dC: "distinct (map fst (Counter vs))"
    by (simp add: keys_Counter distinct_uniq)
  then have dS: "distinct (map fst ?S)"
    by (simp add: distinct_map)
  have "length ?S = length (uniq vs)"
    using keys_Counter [of vs] by (metis length_map length_sort)
  also have "\<dots> = card (set vs)"
    using distinct_card [OF distinct_uniq, of vs] by (simp add: set_uniq)
  finally show "length r = min 3 (card (set vs))"
    by (simp add: r min.commute)
  show "distinct (map threat r)"
    using dS by (simp add: thr take_map [symmetric] distinct_take)
  have sub: "set (take 3 ?S) \<subseteq> set ?S"
    by (rule set_take_subset)
  show "set (map threat r) \<subseteq> set vs"
    using sub keys by (auto simp: thr)
  show "\<forall>e\<in>set r. count e = count_list vs (threat e)"
  proof
    fix e assume "e \<in> set r"
    then obtain t c where p: "(t, c) \<in> set (take 3 ?S)" and e: "e = \<lparr>threat = t, count = c\<rparr>"
      by (auto simp: r)
    from p sub have "(t, c) \<in> set (Counter vs)" by auto
    then have "c = count_list vs t" by (rule Counter_entry)
    with e show "count e = count_list vs (threat e)" by simp
  qed
  have srt: "sorted_wrt (\<lambda>a b. ranks_before vs (fst a) (fst b)) ?S"
    by (rule ranking_sorted_Counter)
  then have "sorted_wrt (\<lambda>a b. ranks_before vs (fst a) (fst b)) (take 3 ?S)"
    by (rule sorted_wrt_take)
  then show "sorted_wrt (\<lambda>a b. ranks_before vs (threat a) (threat b)) r"
    by (simp add: r sorted_wrt_map case_prod_beta)
  show "\<forall>v\<in>set vs - set (map threat r). \<forall>e\<in>set r. ranks_before vs (threat e) v"
  proof (intro ballI)
    fix v e assume v: "v \<in> set vs - set (map threat r)" and e: "e \<in> set r"
    from v have "v \<in> fst ` set ?S"
      by (simp only: keys) simp
    then obtain p where p: "p \<in> set ?S" and fp: "fst p = v"
      by (elim imageE) simp
    have "p \<notin> set (take 3 ?S)"
    proof
      assume "p \<in> set (take 3 ?S)"
      then have "fst p \<in> set (map fst (take 3 ?S))"
        by (simp only: set_map) (rule imageI)
      with v fp show False
        by (simp only: thr) simp
    qed
    moreover from e have "e \<in> ?mk ` set (take 3 ?S)"
      by (simp only: r set_map)
    then obtain q where q: "q \<in> set (take 3 ?S)" and eq: "e = ?mk q"
      by (elim imageE)
    ultimately have "ranks_before vs (fst q) (fst p)"
      using srt p by (rule_tac sorted_wrt_take_rest)
    moreover from eq have "threat e = fst q"
      by (simp add: case_prod_beta)
    ultimately show "ranks_before vs (threat e) v"
      using fp by simp
  qed
qed

text \<open>
  C8. On a batch that has a \<open>threat_type\<close> column, \<open>get_trending_threats\<close>
  returns at most three entries (three, or as many as there are distinct non-null
  values), with distinct threats taken from the non-null values, each with its
  number of occurrences; the entries are in ranking order (more occurrences first,
  then earlier first occurrence), and every value left out ranks after every entry.
  The batch Phishing, Phishing, Ransomware gives (Phishing, 2), (Ransomware, 1).
\<close>

theorem get_trending_threats_top3:
  assumes "df_getitem df ''threat_type'' = Inr col"
  shows "(\<exists>r. get_trending_threats df = Inr r
      \<and> length r \<le> 3
      \<and> length r = min 3 (card (set (dropna col)))
      \<and> distinct (map threat r)
      \<and> set (map threat r) \<subseteq> set (dropna col)
      \<and> (\<forall>e\<in>set r. count e = count_list (dropna col) (threat e))
      \<and> sorted_wrt (\<lambda>a b. ranks_before (dropna col) (threat a) (threat b)) r
      \<and> (\<forall>v\<in>set (dropna col) - set (map threat r).
            \<forall>e\<in>set r. ranks_before (dropna col) (threat e) v))
    \<and> get_trending_threats (DataFrame scenario_batch)
      = Inr [\<lparr>threat = ''Phishing'', count = 2\<rparr>, \<lparr>threat = ''Ransomware'', count = 1\<rparr>]"
proof -
  let ?r = "map (\<lambda>(t, c). \<lparr>threat = t, count = c\<rparr>) (most_common 3 (Counter (dropna col)))"
  have run: "get_trending_threats df = Inr ?r"
  proof (cases "df_empty df")
    case True
    with assms have "df_rows df = []"
      by (auto simp: df_empty_def df_getitem_def split: if_splits)
    with assms have "col = []"
      by (auto simp: df_getitem_def split: if_splits)
    with True show ?thesis
      by (simp add: get_trending_threats_def Counter_def most_common_def)
  next
    case False
    with assms show ?thesis
      by (simp add: get_trending_threats_def)
  qed
  have len: "length ?r \<le> 3"
    by (simp add: most_common_def)
  have general: "\<exists>r. get_trending_threats df = Inr r
      \<and> length r \<le> 3
      \<and> length r = min 3 (card (set (dropna col)))
      \<and> distinct (map threat r)
      \<and> set (map threat r) \<subseteq> set (dropna col)
      \<and> (\<forall>e\<in>set r. count e = count_list (dropna col) (threat e))
      \<and> sorted_wrt (\<lambda>a b. ranks_before (dropna col) (threat a) (threat b)) r
      \<and> (\<forall>v\<in>set (dropna col) - set (map threat r).
            \<forall>e\<in>set r. ranks_before (dropna col) (threat e) v)"
    using run len top3_properties [of "dropna col"] by blast
  have scenario: "get_trending_threats (DataFrame scenario_batch)
      = Inr [\<lparr>threat = ''Phishing'', count = 2\<rparr>, \<lparr>threat = ''Ransomware'', count = 1\<rparr>]"
    by (simp add: get_trending_threats_def DataFrame_def scenario_batch_def df_empty_def
        df_getitem_def cell_of_def Counter_def most_common_def)
  from general scenario show ?thesis ..
qed

theorem get_trending_threats_top3_witness:
  "df_getitem (DataFrame tied_batch) ''threat_type''
     = Inr [Some ''DDoS'', Some ''Malware'', None, Some ''Malware'', Some ''APT'',
            Some ''Phishing'', Some ''Phishing'']
   \<and> get_trending_threats (DataFrame tied_batch)
     = Inr [\<lparr>threat = ''Malware'', count = 2\<rparr>, \<lparr>threat = ''Phishing'', count = 2\<rparr>,
            \<lparr>threat = ''DDoS'', count = 1\<rparr>]
   \<and> (\<exists>r. get_trending_threats (DataFrame tied_batch) = Inr r \<and> length r = 3
          \<and> distinct (map threat r))"
proof -
  let ?col = "[Some ''DDoS'', Some ''Malware'', None, Some ''Malware'', Some ''APT'',
            Some ''Phishing'', Some ''Phishing'']"
  have h: "df_getitem (DataFrame tied_batch) ''threat_type'' = Inr ?col"
    by (simp add: df_getitem_def DataFrame_def tied_batch_def cell_of_def)
  have v: "get_trending_threats (DataFrame tied_batch)
     = Inr [\<lparr>threat = ''Malware'', count = 2\<rparr>, \<lparr>threat = ''Phishing'', count = 2\<rparr>,
            \<lparr>threat = ''DDoS'', count = 1\<rparr>]"
    by (simp add: get_trending_threats_def DataFrame_def tied_batch_def df_empty_def
        df_getitem_def cell_of_def Counter_def most_common_def)
  from get_trending_threats_top3 [OF h]
  obtain r where r: "get_trending_threats (DataFrame tied_batch) = Inr r"
    and "length r \<le> 3" and d: "distinct (map threat r)"
    by blast
  from r v have "r = [\<lparr>threat = ''Malware'', count = 2\<rparr>, \<lparr>threat = ''Phishing'', count = 2\<rparr>,
            \<lparr>threat = ''DDoS'', count = 1\<rparr>]"
    by (simp only: sum.inject)
  then have "length r = 3" by simp
  with h v r d show ?thesis by blast
qed

section \<open>Scraper: proofs\<close>

lemma extract_candidates_Nil [simp]:
  "extract_candidates w n i [] articles = (articles, None)"
  by simp

lemma try_selectors_trace:
  "try_selectors w n i soup sels [] =
     ((case dropWhile (\<lambda>s. \<not> stops_at w n i soup s) sels of
         [] \<Rightarrow> [] | s # rest \<Rightarrow> fst (selector_yield w n i soup s)),
      takeWhile (\<lambda>s. \<not> stops_at w n i soup s) sels
        @ take 1 (dropWhile (\<lambda>s. \<not> stops_at w n i soup s) sels),
      (case dropWhile (\<lambda>s. \<not> stops_at w n i soup s) sels of
         [] \<Rightarrow> None | s # rest \<Rightarrow> snd (selector_yield w n i soup s)))"
proof (induction sels)
  case Nil
  then show ?case by simp
next
  case (Cons s sels)
  show ?case
  proof (cases "select soup s")
    case (Inl e)
    then have "stops_at w n i soup s"
      by (simp add: stops_at_def selector_yield_def)
    with Inl show ?thesis
      by (simp add: selector_yield_def)
  next
    case (Inr els)
    obtain found e where y: "extract_candidates w n i (take 5 els) [] = (found, e)"
      by (cases "extract_candidates w n i (take 5 els) []")
    then have sy: "selector_yield w n i soup s = (found, e)"
      using Inr by (simp add: selector_yield_def)
    show ?thesis
    proof (cases "els = []")
      case True
      with y have "found = []" "e = None" by simp_all
      with sy have "\<not> stops_at w n i soup s"
        by (simp add: stops_at_def)
      with Inr True show ?thesis
        by (simp add: Cons.IH)
    next
      case False
      show ?thesis
      proof (cases e)
        case (Some x)
        with sy have "stops_at w n i soup s"
          by (simp add: stops_at_def)
        with Inr False y Some sy show ?thesis
          by simp
      next
        case None
        show ?thesis
        proof (cases "found = []")
          case True
          with sy None have "\<not> stops_at w n i soup s"
            by (simp add: stops_at_def)
          with Inr False y None True show ?thesis
            by (simp add: Cons.IH)
        next
          case nonempty: False
          with sy have "stops_at w n i soup s"
            by (simp add: stops_at_def)
          with Inr False y None nonempty sy show ?thesis
            by simp
        qed
      qed
    qed
  qed
qed


subsection \<open>The selector loop\<close>

text \<open>
  C5, counterexample. On a page where \<open>article\<close> matches one element that has no
  title link and \<open>.post\<close> matches an element that has one, the selector
  \<open>.post\<close> is consulted after \<open>article\<close> has matched, and the result comes
  from it.
\<close>

theorem scrape_source_first_match_counterexample:
  "select teaser_page ''article'' = Inr [[]]
   \<and> consulted_selectors teaser_web ''Krebs on Security'' example_source = [''article'', ''.post'']
   \<and> scrape_source teaser_web ''Krebs on Security'' example_source =
       Inr [\<lparr>art_title = ''Breach'', art_url = ''https://krebsonsecurity.com/breach'',
             art_source = ''Krebs on Security'', art_region = ''North America'',
             art_summary = []\<rparr>]"
  by (simp add: select_def teaser_page_def consulted_selectors_def scrape_source_def
      scrape_source_try_def teaser_web_def example_source_def selectors_def
      extract_candidate_def title_selectors_def select_one_def startswith_def
      strip_def is_space_def scrape_article_def clean_text_def)

text \<open>
  C5, as the code has it. When the page is fetched and parsed, the selectors passed
  to \<^verbatim>\<open>soup.select\<close> are those before the first selector at which the loop
  ends, and that selector; the loop ends at a selector when its matched elements
  (the first five) yield at least one article, or when an exception is raised
  there. The returned list is what that selector yields. A selector that matches
  elements which yield no article, without an exception, does not end the loop.
\<close>

theorem scrape_source_stops_at_first_yield:
  assumes "requests_get w (src_url info) = Inr body"
    and "BeautifulSoup w body = Inr soup"
  shows "consulted_selectors w name info =
           takeWhile (\<lambda>s. \<not> stops_at w name info soup s) selectors
             @ take 1 (dropWhile (\<lambda>s. \<not> stops_at w name info soup s) selectors)
       \<and> scrape_source w name info =
           Inr (case dropWhile (\<lambda>s. \<not> stops_at w name info soup s) selectors of
                  [] \<Rightarrow> [] | s # rest \<Rightarrow> fst (selector_yield w name info soup s))
       \<and> (select soup s = Inr els
            \<and> extract_candidates w name info (take 5 els) [] = ([], None)
            \<longrightarrow> \<not> stops_at w name info soup s)
       \<and> (select soup s = Inr els
            \<and> fst (extract_candidates w name info (take 5 els) []) \<noteq> []
            \<longrightarrow> stops_at w name info soup s)"
  using assms
  by (simp add: consulted_selectors_def scrape_source_def scrape_source_try_def
      try_selectors_trace stops_at_def selector_yield_def)

theorem scrape_source_stops_at_first_yield_witness:
  "requests_get teaser_web (src_url example_source) = Inr ''<html>''
   \<and> BeautifulSoup teaser_web ''<html>'' = Inr teaser_page
   \<and> \<not> stops_at teaser_web ''Krebs on Security'' example_source teaser_page ''article''
   \<and> stops_at teaser_web ''Krebs on Security'' example_source teaser_page ''.post''
   \<and> consulted_selectors teaser_web ''Krebs on Security'' example_source = [''article'', ''.post'']"
proof -
  have f: "requests_get teaser_web (src_url example_source) = Inr ''<html>''"
    by (simp add: teaser_web_def)
  have p: "BeautifulSoup teaser_web ''<html>'' = Inr teaser_page"
    by (simp add: teaser_web_def)
  have a: "\<not> stops_at teaser_web ''Krebs on Security'' example_source teaser_page ''article''"
    by (simp add: stops_at_def selector_yield_def select_def teaser_page_def
        extract_candidate_def title_selectors_def select_one_def)
  have b: "stops_at teaser_web ''Krebs on Security'' example_source teaser_page ''.post''"
    by (simp add: stops_at_def selector_yield_def select_def teaser_page_def
        extract_candidate_def title_selectors_def select_one_def startswith_def Let_def)
  show ?thesis
    using f p a b
      scrape_source_stops_at_first_yield [OF f p, of "''Krebs on Security''" "''article''" "[[]]"]
    by (simp add: selectors_def)
qed

subsection \<open>Failure of one source\<close>

lemma scrape_source_returns: "scrape_source w name info = Inr (fst (scrape_source_try w name info))"
  by (simp add: scrape_source_def split: prod.splits)







lemma startswith_http_nonempty: "startswith s ''http'' \<Longrightarrow> s \<noteq> []"
  by (auto simp: startswith_def)








subsection \<open>URLs of scraped articles\<close>

lemma startswith_append: "startswith s p \<Longrightarrow> startswith (s @ t) p"
proof -
  assume a: "startswith s p"
  then have "length (take (length p) s) = length p"
    by (simp add: startswith_def)
  then have "length p \<le> length s"
    by simp
  with a show ?thesis
    by (simp add: startswith_def)
qed

lemma extract_candidate_urls:
  assumes "startswith (src_url info) ''http''"
    and "extract_candidate w name info el articles = Inr articles'"
    and "list_all url_ok articles"
  shows "list_all url_ok articles'"
  using assms
  by (auto simp: extract_candidate_def url_ok_def Let_def startswith_append
      startswith_http_nonempty split: sum.splits option.splits attr.splits if_splits)

lemma extract_candidates_urls:
  assumes "startswith (src_url info) ''http''"
    and "list_all url_ok articles"
  shows "list_all url_ok (fst (extract_candidates w name info els articles))"
  using assms(2)
proof (induction els arbitrary: articles)
  case Nil
  then show ?case by simp
next
  case (Cons el els)
  show ?case
  proof (cases "extract_candidate w name info el articles")
    case (Inl e)
    with Cons.prems show ?thesis by simp
  next
    case (Inr articles')
    then have "list_all url_ok articles'"
      using extract_candidate_urls [OF assms(1) Inr] Cons.prems by simp
    with Inr show ?thesis
      by (simp add: Cons.IH)
  qed
qed

lemma selector_yield_urls:
  assumes "startswith (src_url info) ''http''"
  shows "list_all url_ok (fst (selector_yield w name info soup s))"
  using extract_candidates_urls [OF assms, of "[]"]
  by (simp add: selector_yield_def split: sum.splits)

lemma scrape_source_try_urls:
  assumes "startswith (src_url info) ''http''"
  shows "list_all url_ok (fst (scrape_source_try w name info))"
  using selector_yield_urls [OF assms]
  by (simp add: scrape_source_try_def try_selectors_trace split: sum.splits list.splits)

lemma SOURCES_https: "list_all (\<lambda>(n, i). startswith (src_url i) ''https'') SOURCES"
  by (simp add: SOURCES_def startswith_def)

lemma https_is_http: "startswith s ''https'' \<Longrightarrow> startswith s ''http''"
proof -
  assume "startswith s ''https''"
  then have "take (length ''https'') s = ''https''"
    by (simp only: startswith_def)
  then have "s = ''https'' @ drop (length ''https'') s"
    by (metis append_take_drop_id)
  then obtain t where "s = ''https'' @ t"
    by blast
  then show ?thesis
    by (simp add: startswith_def)
qed

text \<open>
  C10. Every registry URL starts with \<open>https\<close>. For a source whose base URL
  starts with \<open>http\<close> (so for every registry entry), every article that
  \<open>scrape_source\<close> returns has a non-empty \<open>url\<close> that starts with
  \<open>http\<close>. For one matched element with a title link: a non-empty href that does
  not start with \<open>http\<close> is appended to the base URL; an href that starts with
  \<open>http\<close> is kept; a missing, empty or non-string href adds no article.
\<close>

theorem scrape_source_urls:
  "list_all (\<lambda>(n, i). startswith (src_url i) ''https'') SOURCES
   \<and> (startswith (src_url info) ''http'' \<longrightarrow>
        (\<exists>found. scrape_source w name info = Inr found
           \<and> (\<forall>a\<in>set found. art_url a \<noteq> [] \<and> startswith (art_url a) ''http'')))
   \<and> ((name, info) \<in> set SOURCES \<longrightarrow>
        (\<exists>found. scrape_source w name info = Inr found
           \<and> (\<forall>a\<in>set found. art_url a \<noteq> [] \<and> startswith (art_url a) ''http'')))
   \<and> (first_title el title_selectors = Inr (Some t) \<and> href t = Some (AttrStr u)
          \<and> u \<noteq> [] \<and> \<not> startswith u ''http'' \<longrightarrow>
        extract_candidate w name info el articles =
          Inr (articles @
            [\<lparr>art_title = strip (tag_text t), art_url = src_url info @ u, art_source = name,
              art_region = src_region info,
              art_summary = scrape_article w (src_url info @ u)\<rparr>]))
   \<and> (first_title el title_selectors = Inr (Some t) \<and> href t = Some (AttrStr u)
          \<and> startswith u ''http'' \<longrightarrow>
        extract_candidate w name info el articles =
          Inr (articles @
            [\<lparr>art_title = strip (tag_text t), art_url = u, art_source = name,
              art_region = src_region info, art_summary = scrape_article w u\<rparr>]))
   \<and> (first_title el title_selectors = Inr (Some t)
          \<and> (href t = None \<or> href t = Some (AttrStr []) \<or> href t = Some (AttrList l)) \<longrightarrow>
        extract_candidate w name info el articles = Inr articles)"
proof -
  have general: "\<exists>found. scrape_source w name info = Inr found
           \<and> (\<forall>a\<in>set found. art_url a \<noteq> [] \<and> startswith (art_url a) ''http'')"
    if "startswith (src_url info) ''http''"
    using scrape_source_try_urls [OF that, of w name]
    by (simp add: scrape_source_returns list_all_iff url_ok_def)
  have registry: "startswith (src_url info) ''http''" if "(name, info) \<in> set SOURCES"
    using that SOURCES_https https_is_http by (auto simp: list_all_iff)
  have relative: "extract_candidate w name info el articles =
          Inr (articles @
            [\<lparr>art_title = strip (tag_text t), art_url = src_url info @ u, art_source = name,
              art_region = src_region info,
              art_summary = scrape_article w (src_url info @ u)\<rparr>])"
    if "first_title el title_selectors = Inr (Some t)" "href t = Some (AttrStr u)"
      "u \<noteq> []" "\<not> startswith u ''http''"
    using that by (simp add: extract_candidate_def Let_def)
  have absolute: "extract_candidate w name info el articles =
          Inr (articles @
            [\<lparr>art_title = strip (tag_text t), art_url = u, art_source = name,
              art_region = src_region info, art_summary = scrape_article w u\<rparr>])"
    if "first_title el title_selectors = Inr (Some t)" "href t = Some (AttrStr u)"
      "startswith u ''http''"
    using that startswith_http_nonempty [of u] by (simp add: extract_candidate_def Let_def)
  have dropped: "extract_candidate w name info el articles = Inr articles"
    if "first_title el title_selectors = Inr (Some t)"
      "href t = None \<or> href t = Some (AttrStr []) \<or> href t = Some (AttrList l)"
    using that by (auto simp: extract_candidate_def)
  show ?thesis
    using SOURCES_https general registry relative absolute dropped by blast
qed

theorem scrape_source_urls_witness:
  "(''Krebs on Security'', example_source) \<in> set SOURCES
   \<and> startswith (src_url example_source) ''http''
   \<and> scrape_source teaser_web ''Krebs on Security'' example_source =
       Inr [\<lparr>art_title = ''Breach'', art_url = ''https://krebsonsecurity.com/breach'',
             art_source = ''Krebs on Security'', art_region = ''North America'',
             art_summary = []\<rparr>]
   \<and> startswith ''https://krebsonsecurity.com/breach'' ''http''"
proof -
  have m: "(''Krebs on Security'', example_source) \<in> set SOURCES"
    by (simp add: SOURCES_def example_source_def)
  have b: "startswith (src_url example_source) ''http''"
    by (simp add: example_source_def startswith_def)
  have r: "scrape_source teaser_web ''Krebs on Security'' example_source =
       Inr [\<lparr>art_title = ''Breach'', art_url = ''https://krebsonsecurity.com/breach'',
             art_source = ''Krebs on Security'', art_region = ''North America'',
             art_summary = []\<rparr>]"
    by (simp add: teaser_page_def scrape_source_def
      scrape_source_try_def teaser_web_def example_source_def selectors_def select_def
      extract_candidate_def title_selectors_def select_one_def startswith_def
      strip_def is_space_def scrape_article_def clean_text_def)
  from scrape_source_urls [of example_source teaser_web "''Krebs on Security''"] m
  obtain found where "scrape_source teaser_web ''Krebs on Security'' example_source = Inr found"
    and "\<forall>a\<in>set found. art_url a \<noteq> [] \<and> startswith (art_url a) ''http''"
    by blast
  with r have "startswith ''https://krebsonsecurity.com/breach'' ''http''"
    by auto
  with m b r show ?thesis
    by blast
qed

section \<open>Saving articles: proofs\<close>

lemma save_items_frame:
  "save_items f k items s = (s', e) \<Longrightarrow>
     durable s' = durable s \<and> txn s' = txn s
     \<and> pending_recommendations s' = pending_recommendations s"
proof (induction items arbitrary: k s)
  case Nil
  then show ?case by simp
next
  case (Cons item items)
  from Cons.prems show ?case
    by (auto simp: add_article_def split: sum.splits if_splits option.splits
        dest!: Cons.IH)
qed

lemma insert_articles_extends:
  "insert_articles f now pending table = Inr table' \<Longrightarrow>
     \<exists>new. table' = table @ new \<and> set (map na_url new) \<inter> set (map na_url table) = {}"
proof (induction pending arbitrary: table)
  case Nil
  then show ?case by simp
next
  case (Cons a pending)
  let ?row = "(article_row now a)\<lparr>na_id := Some (fresh_id (map na_id table))\<rparr>"
  from Cons.prems have ok: "na_url a \<notin> set (map na_url table)"
    and rest: "insert_articles f now pending (table @ [?row]) = Inr table'"
    by (auto split: if_splits)
  from Cons.IH [OF rest] obtain new where
    new: "table' = (table @ [?row]) @ new"
    and disj: "set (map na_url new) \<inter> set (map na_url (table @ [?row])) = {}"
    by blast
  from new have "table' = table @ (?row # new)" by simp
  moreover from ok disj have "set (map na_url (?row # new)) \<inter> set (map na_url table) = {}"
    by (auto simp: article_row_def)
  ultimately show ?case by blast
qed

lemma insert_articles_distinct:
  "insert_articles f now pending table = Inr table' \<Longrightarrow> distinct (map na_url table)
     \<Longrightarrow> distinct (map na_url table')"
proof (induction pending arbitrary: table)
  case Nil
  then show ?case by simp
next
  case (Cons a pending)
  let ?row = "(article_row now a)\<lparr>na_id := Some (fresh_id (map na_id table))\<rparr>"
  from Cons.prems(1) have ok: "na_url a \<notin> set (map na_url table)"
    and rest: "insert_articles f now pending (table @ [?row]) = Inr table'"
    by (auto split: if_splits)
  from ok Cons.prems(2) have "distinct (map na_url (table @ [?row]))"
    by (simp add: article_row_def)
  with rest show ?case by (rule Cons.IH)
qed

text \<open>
  What a call of \<open>save_to_db\<close> can do to the store: nothing, or append rows
  whose urls are new to the table.
\<close>

lemma save_to_db_cases:
  "save_to_db f now db items = db
   \<or> (\<exists>pending table'. insert_articles f now pending (news_articles db) = Inr table'
        \<and> save_to_db f now db items = db\<lparr>news_articles := table'\<rparr>)"
proof -
  obtain s1 e1 where loop: "save_items f 0 items (SessionLocal db) = (s1, e1)"
    by (cases "save_items f 0 items (SessionLocal db)")
  from save_items_frame [OF loop] have fr: "durable s1 = db" "txn s1 = db"
    "pending_recommendations s1 = []"
    by (simp_all add: SessionLocal_def)
  show ?thesis
  proof (cases e1)
    case (Some e)
    with loop fr show ?thesis
      by (simp add: save_to_db_def close_def rollback_def)
  next
    case None
    show ?thesis
    proof (cases "insert_articles f now (pending_articles s1) (news_articles db)")
      case (Inl e)
      with loop None fr show ?thesis
        by (simp add: save_to_db_def commit_def flush_def close_def rollback_def)
    next
      case (Inr table')
      show ?thesis
      proof (cases "commit_fails f")
        case True
        with loop None fr Inr show ?thesis
          by (simp add: save_to_db_def commit_def flush_def close_def rollback_def)
      next
        case False
        with loop None fr Inr
        have "save_to_db f now db items = db\<lparr>news_articles := table'\<rparr>"
          by (simp add: save_to_db_def commit_def flush_def close_def)
        with Inr show ?thesis by blast
      qed
    qed
  qed
qed

lemma save_to_db_extends:
  "\<exists>new. news_articles (save_to_db f now db items) = news_articles db @ new
     \<and> set (map na_url new) \<inter> set (map na_url (news_articles db)) = {}
     \<and> security_recommendations (save_to_db f now db items) = security_recommendations db"
  using save_to_db_cases [of f now db items]
proof
  assume "save_to_db f now db items = db"
  then show ?thesis by simp
next
  assume "\<exists>pending table'. insert_articles f now pending (news_articles db) = Inr table'
        \<and> save_to_db f now db items = db\<lparr>news_articles := table'\<rparr>"
  then obtain pending table' where
    ins: "insert_articles f now pending (news_articles db) = Inr table'"
    and res: "save_to_db f now db items = db\<lparr>news_articles := table'\<rparr>"
    by blast
  from insert_articles_extends [OF ins] res show ?thesis
    by auto
qed

text \<open>
  A url that is in the store keeps its records: no second record, no changed field.
\<close>

lemma save_to_db_existing_url:
  assumes "u \<in> set (map na_url (news_articles db))"
  shows "records_with_url (save_to_db f now db items) u = records_with_url db u"
proof -
  from save_to_db_extends [of f now db items] obtain new where
    ext: "news_articles (save_to_db f now db items) = news_articles db @ new"
    and disj: "set (map na_url new) \<inter> set (map na_url (news_articles db)) = {}"
    by blast
  from assms disj have "u \<notin> set (map na_url new)" by blast
  then have "filter (\<lambda>r. na_url r = u) new = []"
    by (auto simp: filter_empty_conv)
  with ext show ?thesis
    by (simp add: records_with_url_def)
qed

lemma save_to_db_distinct_urls:
  assumes "distinct (map na_url (news_articles db))"
  shows "distinct (map na_url (news_articles (save_to_db f now db items)))"
  using save_to_db_cases [of f now db items] assms
  by (auto dest: insert_articles_distinct)

lemma records_with_url_distinct:
  assumes "distinct (map na_url (news_articles db))"
    and "u \<in> set (map na_url (news_articles db))"
  shows "length (records_with_url db u) = 1"
proof -
  have "length (filter (\<lambda>r. na_url r = u) rows) = 1"
    if "distinct (map na_url rows)" "u \<in> set (map na_url rows)" for rows :: "news_article list"
    using that
  proof (induction rows)
    case Nil
    then show ?case by simp
  next
    case (Cons r rows)
    show ?case
    proof (cases "na_url r = u")
      case True
      with Cons.prems have "u \<notin> set (map na_url rows)" by auto
      then have "filter (\<lambda>r. na_url r = u) rows = []"
        by (auto simp: filter_empty_conv)
      with True show ?thesis by simp
    next
      case False
      with Cons show ?thesis by auto
    qed
  qed
  with assms show ?thesis
    by (simp add: records_with_url_def)
qed

text \<open>
  One well-formed item (its required columns not null, its values within the
  column lengths where they are enforced), saved on its own without a failure of
  the store, is in the store afterwards.
\<close>

lemma save_to_db_single_persists:
  assumes "new_article item = Inr a"
    and "na_title a \<noteq> None" and "na_url a \<noteq> None" and "na_source a \<noteq> None"
    and "\<not> query_fails f 0" and "\<not> add_fails f 0" and "\<not> commit_fails f"
    and "enforces_lengths f \<longrightarrow> article_fits (article_row now a)"
  shows "na_url a \<in> set (map na_url (news_articles (save_to_db f now db [item])))"
proof -
  from assms(1) have u: "subscript item ''url'' = Inr (na_url a)"
    by (auto simp: new_article_def split: sum.splits)
  show ?thesis
  proof (cases "na_url a \<in> set (map na_url (news_articles db))")
    case True
    with save_to_db_extends [of f now db "[item]"] show ?thesis
      by auto
  next
    case False
    then have "\<forall>r\<in>set (news_articles db). na_url r \<noteq> na_url a"
      by (metis image_eqI set_map)
    then have "first_by_url (SessionLocal db) (na_url a) = None"
      by (simp add: first_by_url_def SessionLocal_def find_None_iff)
    with u assms False show ?thesis
      by (auto simp: save_to_db_def add_article_def SessionLocal_def commit_def flush_def
          close_def article_row_def)
  qed
qed

text \<open>
  Two successive calls, each saving one of two items with the same url: when the
  first call meets no failure of the store, exactly one record has that url
  afterwards, whatever happens in the second call.
\<close>

lemma save_to_db_twice_one_record:
  assumes "distinct (map na_url (news_articles db))"
    and "new_article item = Inr a"
    and "na_title a \<noteq> None" and "na_url a \<noteq> None" and "na_source a \<noteq> None"
    and "\<not> query_fails f 0" and "\<not> add_fails f 0" and "\<not> commit_fails f"
    and "enforces_lengths f \<longrightarrow> article_fits (article_row now a)"
  shows "length (records_with_url
            (save_to_db f' now' (save_to_db f now db [item]) items') (na_url a)) = 1"
proof -
  let ?db1 = "save_to_db f now db [item]"
  have d1: "distinct (map na_url (news_articles ?db1))"
    using assms(1) by (rule save_to_db_distinct_urls)
  have m1: "na_url a \<in> set (map na_url (news_articles ?db1))"
    using assms(2-9) by (rule save_to_db_single_persists)
  have "records_with_url (save_to_db f' now' ?db1 items') (na_url a)
      = records_with_url ?db1 (na_url a)"
    using m1 by (rule save_to_db_existing_url)
  with records_with_url_distinct [OF d1 m1] show ?thesis by simp
qed

text \<open>
  C3, at a batch that holds both items. Neither query sees the other item, which is
  pending and not flushed; the commit then writes both, the second insert violates
  the unique constraint, and the rollback drops the whole batch: no record has the
  url, and an unrelated item of the same batch is lost with them. Saved by two
  successive calls, the same two items leave one record.
\<close>

theorem save_to_db_duplicate_in_batch:
  "records_with_url (save_to_db no_faults 7 empty_database [first_report, second_report])
       (Some ''https://thehackernews.com/bank'') = []
   \<and> save_to_db no_faults 7 empty_database [other_report, first_report, second_report]
       = empty_database
   \<and> length (records_with_url
        (save_to_db no_faults 8 (save_to_db no_faults 7 empty_database [first_report])
           [second_report])
        (Some ''https://thehackernews.com/bank'')) = 1"
proof -
  have one: "save_to_db no_faults 7 empty_database [first_report] =
      \<lparr>news_articles =
        [\<lparr>na_id = Some 1, na_title = Some ''Bank breached'',
          na_url = Some ''https://thehackernews.com/bank'',
          na_source = Some ''The Hacker News'', na_region = Some ''Global'',
          na_summary = Some ''Attackers took records.'',
          na_category = Some ''Data Breach'', na_created_at = Some 7,
          na_threat_type = Some ''Data Breach''\<rparr>],
       security_recommendations = []\<rparr>"
    by (simp add: save_to_db_def no_faults_def empty_database_def first_report_def
        SessionLocal_def subscript_def first_by_url_def new_article_def dict_get_def
        add_article_def commit_def flush_def close_def fresh_id_def article_row_def article_fits_def fits_def)
  have two: "save_to_db no_faults 7 empty_database [first_report, second_report]
      = empty_database"
    by (simp add: save_to_db_def no_faults_def empty_database_def first_report_def
        second_report_def SessionLocal_def subscript_def first_by_url_def new_article_def
        dict_get_def add_article_def commit_def flush_def close_def rollback_def fresh_id_def
        article_row_def article_fits_def fits_def)
  have three: "save_to_db no_faults 7 empty_database [other_report, first_report, second_report]
      = empty_database"
    by (simp add: save_to_db_def no_faults_def empty_database_def first_report_def
        second_report_def other_report_def SessionLocal_def subscript_def first_by_url_def
        new_article_def dict_get_def add_article_def commit_def flush_def close_def
        rollback_def fresh_id_def article_row_def article_fits_def fits_def)
  have again: "length (records_with_url
        (save_to_db no_faults 8 (save_to_db no_faults 7 empty_database [first_report])
           [second_report])
        (Some ''https://thehackernews.com/bank'')) = 1"
    unfolding one
    by (simp add: save_to_db_def no_faults_def second_report_def
        SessionLocal_def subscript_def first_by_url_def commit_def flush_def close_def
        records_with_url_def)
  from two have "records_with_url
      (save_to_db no_faults 7 empty_database [first_report, second_report])
      (Some ''https://thehackernews.com/bank'') = []"
    by (simp add: records_with_url_def empty_database_def)
  with three again show ?thesis by blast
qed

section \<open>Recommendations: proofs\<close>

lemma add_recommendations_frame:
  "add_recommendations advise f k tops s = (s', ops, e) \<Longrightarrow>
     durable s' = durable s \<and> txn s' = txn s \<and> pending_articles s' = pending_articles s"
proof (induction tops arbitrary: k s ops)
  case Nil
  then show ?case by simp
next
  case (Cons t tops)
  from Cons.prems show ?case
    by (auto simp: Let_def add_recommendation_def split: if_splits prod.splits
        dest!: Cons.IH)
qed

lemma add_recommendations_done:
  "add_recommendations advise f k tops s = (s', ops, None) \<Longrightarrow>
     (\<forall>j. k \<le> j \<and> j < k + length tops \<longrightarrow> \<not> add_fails f j)
     \<and> map sr_recommendation (pending_recommendations s')
         = map sr_recommendation (pending_recommendations s)
             @ map (generate_recommendations advise) tops
     \<and> map sr_threat_type (pending_recommendations s')
         = map sr_threat_type (pending_recommendations s) @ map Some tops"
proof (induction tops arbitrary: k s ops)
  case Nil
  then show ?case by auto
next
  case (Cons t tops)
  let ?s = "add_recommendation s \<lparr>sr_id = None, sr_threat_type = Some t,
      sr_recommendation = generate_recommendations advise t, sr_created_at = None\<rparr>"
  from Cons.prems have nf: "\<not> add_fails f k"
    by (auto simp: Let_def split: if_splits)
  with Cons.prems obtain ops' where
    rest: "add_recommendations advise f (Suc k) tops ?s = (s', ops', None)"
    by (auto simp: Let_def split: prod.splits)
  from Cons.IH [OF rest]
  have later: "\<forall>j. Suc k \<le> j \<and> j < Suc k + length tops \<longrightarrow> \<not> add_fails f j"
    and pend: "map sr_recommendation (pending_recommendations s')
         = map sr_recommendation (pending_recommendations ?s)
             @ map (generate_recommendations advise) tops"
    and thr: "map sr_threat_type (pending_recommendations s')
         = map sr_threat_type (pending_recommendations ?s) @ map Some tops"
    by blast+
  have "\<not> add_fails f j" if "k \<le> j" "j < k + length (t # tops)" for j
  proof (cases "j = k")
    case True
    with nf show ?thesis by simp
  next
    case False
    with that have "Suc k \<le> j \<and> j < Suc k + length tops" by simp
    with later show ?thesis by blast
  qed
  moreover from pend have "map sr_recommendation (pending_recommendations s')
         = map sr_recommendation (pending_recommendations s)
             @ map (generate_recommendations advise) (t # tops)"
    by (simp add: add_recommendation_def)
  moreover from thr have "map sr_threat_type (pending_recommendations s')
         = map sr_threat_type (pending_recommendations s) @ map Some (t # tops)"
    by (simp add: add_recommendation_def)
  ultimately show ?case by blast
qed

lemma insert_recommendations_null:
  "None \<in> set (map sr_recommendation pending) \<Longrightarrow>
     \<exists>e. insert_recommendations f now pending table = Inl e"
  by (induction pending arbitrary: table) auto

lemma insert_recommendations_long:
  "enforces_lengths f \<Longrightarrow> \<exists>r\<in>set pending. \<not> fits 100 (sr_threat_type r) \<Longrightarrow>
     \<exists>e. insert_recommendations f now pending table = Inl e"
  by (induction pending arbitrary: table) auto

lemma commit_failure_keeps_durable:
  "commit f now s = (s', Some e) \<Longrightarrow> durable s' = durable s"
  by (auto simp: commit_def flush_def split: sum.splits if_splits)

lemma commit_raises:
  assumes "None \<in> set (map sr_recommendation (pending_recommendations s))
      \<or> (enforces_lengths f
          \<and> (\<exists>r\<in>set (pending_recommendations s). \<not> fits 100 (sr_threat_type r)))
      \<or> commit_fails f"
  shows "\<exists>s' e. commit f now s = (s', Some e)"
proof (cases "flush f now s")
  case (Inl e)
  then show ?thesis by (simp add: commit_def)
next
  case (Inr s')
  then obtain recs where "insert_recommendations f now (pending_recommendations s)
      (security_recommendations (txn s)) = Inr recs"
    by (auto simp: flush_def split: sum.splits)
  with insert_recommendations_null
      [of "pending_recommendations s" f now "security_recommendations (txn s)"]
    insert_recommendations_long
      [of f "pending_recommendations s" now "security_recommendations (txn s)"]
  have "\<not> None \<in> set (map sr_recommendation (pending_recommendations s))"
    and "\<not> (enforces_lengths f
          \<and> (\<exists>r\<in>set (pending_recommendations s). \<not> fits 100 (sr_threat_type r)))"
    by auto
  with assms have "commit_fails f" by blast
  with Inr show ?thesis by (simp add: commit_def)
qed

text \<open>The inner \<^verbatim>\<open>try\<close> block leaves the committed state alone when it raises.\<close>

lemma replace_recommendations_raise:
  assumes "replace_recommendations advise f now tops (SessionLocal db) = (s, ops, Some e)"
  shows "durable s = db"
proof (cases "delete_fails f")
  case True
  with assms show ?thesis
    by (auto simp: replace_recommendations_def SessionLocal_def)
next
  case False
  obtain s1 ops1 e1 where
    adds: "add_recommendations advise f 0 tops (delete_recommendations (SessionLocal db))
       = (s1, ops1, e1)"
    by (metis prod_cases3)
  from add_recommendations_frame [OF adds] have d1: "durable s1 = db"
    by (simp add: delete_recommendations_def SessionLocal_def)
  show ?thesis
  proof (cases e1)
    case (Some x)
    with assms False adds d1 show ?thesis
      by (simp add: replace_recommendations_def)
  next
    case None
    with assms False adds have "commit f now s1 = (s, Some e)"
      by (auto simp: replace_recommendations_def split: prod.splits)
    from commit_failure_keeps_durable [OF this] d1 show ?thesis by simp
  qed
qed

lemma replace_recommendations_fails:
  assumes "persistence_fails advise f tops"
  shows "\<exists>s ops e. replace_recommendations advise f now tops (SessionLocal db) = (s, ops, Some e)"
proof (cases "delete_fails f")
  case True
  then show ?thesis
    by (simp add: replace_recommendations_def)
next
  case False
  obtain s1 ops1 e1 where
    adds: "add_recommendations advise f 0 tops (delete_recommendations (SessionLocal db))
       = (s1, ops1, e1)"
    by (metis prod_cases3)
  show ?thesis
  proof (cases e1)
    case (Some x)
    with False adds show ?thesis
      by (simp add: replace_recommendations_def)
  next
    case None
    from add_recommendations_done [OF adds [unfolded None]]
    have nf: "\<forall>j. j < length tops \<longrightarrow> \<not> add_fails f j"
      and pend: "map sr_recommendation (pending_recommendations s1)
           = map (generate_recommendations advise) tops"
      and thr: "map sr_threat_type (pending_recommendations s1) = map Some tops"
      by (simp_all add: delete_recommendations_def SessionLocal_def)
    from nf have na: "\<not> list_ex (add_fails f) [0 ..< length tops]"
      by (simp add: list_ex_iff)
    with assms False
    have "list_ex (\<lambda>t. generate_recommendations advise t = None) tops
        \<or> (enforces_lengths f \<and> list_ex (\<lambda>t. 100 < length t) tops) \<or> commit_fails f"
      by (simp add: persistence_fails_def)
    then have cases: "(\<exists>t\<in>set tops. generate_recommendations advise t = None)
        \<or> (enforces_lengths f \<and> (\<exists>t\<in>set tops. 100 < length t)) \<or> commit_fails f"
      by (simp add: list_ex_iff)
    have long: "\<exists>r\<in>set (pending_recommendations s1). \<not> fits 100 (sr_threat_type r)"
      if "\<exists>t\<in>set tops. 100 < length t"
    proof -
      from that obtain t where t: "t \<in> set tops" "100 < length t" by blast
      then have "Some t \<in> set (map sr_threat_type (pending_recommendations s1))"
        unfolding thr by simp
      then obtain r where "r \<in> set (pending_recommendations s1)" "sr_threat_type r = Some t"
        by auto
      moreover from t(2) have "\<not> fits 100 (Some t)"
        by (simp add: fits_def)
      ultimately show ?thesis
        by metis
    qed
    have null: "None \<in> set (map sr_recommendation (pending_recommendations s1))"
      if "\<exists>t\<in>set tops. generate_recommendations advise t = None"
      using that unfolding pend by (metis imageI set_map)
    from cases long null
    have "None \<in> set (map sr_recommendation (pending_recommendations s1))
      \<or> (enforces_lengths f
          \<and> (\<exists>r\<in>set (pending_recommendations s1). \<not> fits 100 (sr_threat_type r)))
      \<or> commit_fails f"
      by blast
    from commit_raises [OF this, of now] obtain s2 e2 where "commit f now s1 = (s2, Some e2)"
      by blast
    with False adds None show ?thesis
      by (simp add: replace_recommendations_def)
  qed
qed

text \<open>
  C4. When the replacement is attempted (the batch is not empty and has top
  threats) and one of its persistence operations fails (the delete, an add, the
  flush or the commit), the session is rolled back and closed, and the store
  afterwards is the store before: in particular the stored recommendations are
  those stored before.
\<close>

theorem update_recommendations_atomic:
  assumes "\<not> df_empty df"
    and "top_threats df = Inr tops"
    and "tops \<noteq> []"
    and "persistence_fails advise f tops"
  shows "(\<exists>ops. update_recommendations advise f now db df = (db, ops @ [OpRollback, OpClose]))
    \<and> security_recommendations (fst (update_recommendations advise f now db df))
        = security_recommendations db"
proof -
  from replace_recommendations_fails [OF assms(4), of now db] obtain s ops e where
    r: "replace_recommendations advise f now tops (SessionLocal db) = (s, ops, Some e)"
    by blast
  from replace_recommendations_raise [OF r] have "close (rollback s) = db"
    by (simp add: close_def rollback_def)
  with assms(1-3) r
  have "update_recommendations advise f now db df
      = (db, (OpClose # ops) @ [OpRollback, OpClose])"
    by (simp add: update_recommendations_def)
  then show ?thesis by (metis fst_conv)
qed

theorem update_recommendations_atomic_witness:
  "\<not> df_empty (DataFrame scenario_batch)
   \<and> top_threats (DataFrame scenario_batch) = Inr [''Phishing'', ''Ransomware'']
   \<and> persistence_fails helpful_advisor commit_down [''Phishing'', ''Ransomware'']
   \<and> update_recommendations helpful_advisor commit_down 9 stored_advice (DataFrame scenario_batch)
       = (stored_advice,
          [OpClose, OpDelete, OpAdd ''Phishing'', OpAdd ''Ransomware'', OpCommit, OpRollback,
           OpClose])
   \<and> security_recommendations
        (fst (update_recommendations helpful_advisor commit_down 9 stored_advice
               (DataFrame scenario_batch)))
       = security_recommendations stored_advice"
proof -
  have e: "\<not> df_empty (DataFrame scenario_batch)"
    by (simp add: df_empty_def DataFrame_def scenario_batch_def)
  have t: "top_threats (DataFrame scenario_batch) = Inr [''Phishing'', ''Ransomware'']"
    by (simp add: top_threats_def df_getitem_def DataFrame_def scenario_batch_def cell_of_def
        Counter_def most_common_def)
  have n: "[''Phishing'', ''Ransomware''] \<noteq> []"
    by simp
  have p: "persistence_fails helpful_advisor commit_down [''Phishing'', ''Ransomware'']"
    by (simp add: persistence_fails_def commit_down_def)
  note a = update_recommendations_atomic [OF e t n p, of 9 stored_advice]
  have v: "update_recommendations helpful_advisor commit_down 9 stored_advice
        (DataFrame scenario_batch)
       = (stored_advice,
          [OpClose, OpDelete, OpAdd ''Phishing'', OpAdd ''Ransomware'', OpCommit, OpRollback,
           OpClose])"
    using e t
    by (simp add: update_recommendations_def replace_recommendations_def commit_down_def
        no_faults_def helpful_advisor_def generate_recommendations_def SessionLocal_def
        delete_recommendations_def add_recommendation_def commit_def flush_def rollback_def
        close_def stored_advice_def fresh_id_def fits_def)
  from e t p v a show ?thesis by blast
qed

text \<open>
  For contrast, without a failure the stored set is replaced by one recommendation
  per top threat.
\<close>

lemma update_recommendations_replaces_example:
  "update_recommendations helpful_advisor no_faults 9 stored_advice (DataFrame scenario_batch)
     = (\<lparr>news_articles = [],
         security_recommendations =
           [\<lparr>sr_id = Some 1, sr_threat_type = Some ''Phishing'',
             sr_recommendation = Some ''Beware of Phishing'', sr_created_at = Some 9\<rparr>,
            \<lparr>sr_id = Some 2, sr_threat_type = Some ''Ransomware'',
             sr_recommendation = Some ''Beware of Ransomware'', sr_created_at = Some 9\<rparr>]\<rparr>,
        [OpClose, OpDelete, OpAdd ''Phishing'', OpAdd ''Ransomware'', OpCommit, OpClose])"
proof -
  have e: "\<not> df_empty (DataFrame scenario_batch)"
    by (simp add: df_empty_def DataFrame_def scenario_batch_def)
  have t: "top_threats (DataFrame scenario_batch) = Inr [''Phishing'', ''Ransomware'']"
    by (simp add: top_threats_def df_getitem_def DataFrame_def scenario_batch_def cell_of_def
        Counter_def most_common_def)
  show ?thesis
    using e t
    by (simp add: update_recommendations_def replace_recommendations_def
        no_faults_def helpful_advisor_def generate_recommendations_def SessionLocal_def
        delete_recommendations_def add_recommendation_def commit_def flush_def
        close_def stored_advice_def fresh_id_def fits_def)
qed

text \<open>
  C7. On a batch that is empty, or whose \<open>threat_type\<close> values are all null,
  \<open>update_recommendations\<close> returns with the store as it was and without a
  single call on a session: no delete, no add.
\<close>

theorem update_recommendations_no_top_threats:
  assumes "df_empty df \<or> (\<exists>col. df_getitem df ''threat_type'' = Inr col \<and> dropna col = [])"
  shows "update_recommendations advise f now db df = (db, [])"
proof (cases "df_empty df")
  case True
  then show ?thesis
    by (simp add: update_recommendations_def)
next
  case False
  with assms obtain col where "df_getitem df ''threat_type'' = Inr col" "dropna col = []"
    by blast
  then have "top_threats df = Inr []"
    by (simp add: top_threats_def Counter_def most_common_def)
  with False show ?thesis
    by (simp add: update_recommendations_def)
qed

theorem update_recommendations_no_top_threats_witness:
  "df_getitem (DataFrame null_batch) ''threat_type'' = Inr [None, None]
   \<and> dropna [None :: cell, None] = []
   \<and> \<not> df_empty (DataFrame null_batch)
   \<and> update_recommendations helpful_advisor no_faults 9 stored_advice (DataFrame null_batch)
       = (stored_advice, [])
   \<and> df_empty (DataFrame [])
   \<and> update_recommendations helpful_advisor no_faults 9 stored_advice (DataFrame [])
       = (stored_advice, [])"
proof -
  have c: "df_getitem (DataFrame null_batch) ''threat_type'' = Inr [None, None]"
    by (simp add: df_getitem_def DataFrame_def null_batch_def cell_of_def)
  have d: "dropna [None :: cell, None] = []"
    by simp
  have n: "\<not> df_empty (DataFrame null_batch)"
    by (simp add: df_empty_def DataFrame_def null_batch_def)
  have e: "df_empty (DataFrame [])"
    by (simp add: df_empty_def DataFrame_def)
  from c d have h1: "df_empty (DataFrame null_batch)
      \<or> (\<exists>col. df_getitem (DataFrame null_batch) ''threat_type'' = Inr col \<and> dropna col = [])"
    by blast
  from e have h2: "df_empty (DataFrame [])
      \<or> (\<exists>col. df_getitem (DataFrame []) ''threat_type'' = Inr col \<and> dropna col = [])"
    by blast
  from c d n e
    update_recommendations_no_top_threats [OF h1, of helpful_advisor no_faults 9 stored_advice]
    update_recommendations_no_top_threats [OF h2, of helpful_advisor no_faults 9 stored_advice]
  show ?thesis by blast
qed

section \<open>Classification: proofs\<close>

lemma map_of_setitem:
  "map_of (setitem d k v) k' = (if k' = k then Some v else map_of d k')"
  by (induction d) auto

lemma py_get_twice:
  "py_get result k dflt = Inr v \<Longrightarrow> py_get result k' dflt' \<noteq> Inl e"
  by (cases result) simp_all

lemma classify_article_try_raises:
  "classify_article_try create loads article = (article', Some e) \<Longrightarrow> article' = article"
  by (auto simp: classify_article_try_def py_get_twice split: sum.splits)

lemma classify_article_handler:
  assumes "snd (classify_article_try create loads article) \<noteq> None"
  shows "classify_article create loads article = Inr (fallback article)"
proof -
  from assms obtain article' e where
    t: "classify_article_try create loads article = (article', Some e)"
    by (cases "classify_article_try create loads article") auto
  from classify_article_try_raises [OF t] t show ?thesis
    by (simp add: classify_article_def fallback_def)
qed

text \<open>
  C1. \<open>classify_article\<close> always returns an article. Whenever its \<^verbatim>\<open>try\<close>
  block raises, the result is the input article with \<open>category\<close> set to
  Uncategorized and \<open>threat_type\<close> to Other, its other keys untouched; the block
  raises when the call to the inference service raises, when the decoding of the
  answer raises, and when the decoded answer is not a JSON object.
\<close>

theorem classify_article_fallback:
  "(\<exists>article'. classify_article create loads article = Inr article')
   \<and> (snd (classify_article_try create loads article) \<noteq> None \<longrightarrow>
        classify_article create loads article = Inr (fallback article))
   \<and> (subscript article ''title'' = Inr title \<and> subscript article ''summary'' = Inr summary
        \<and> slice_to 1000 summary = Inr content
        \<and> create \<lparr>req_title = title, req_content = content\<rparr> = Inl e \<longrightarrow>
        classify_article create loads article = Inr (fallback article))
   \<and> (subscript article ''title'' = Inr title \<and> subscript article ''summary'' = Inr summary
        \<and> slice_to 1000 summary = Inr content
        \<and> create \<lparr>req_title = title, req_content = content\<rparr> = Inr message_content
        \<and> loads message_content = Inl e \<longrightarrow>
        classify_article create loads article = Inr (fallback article))
   \<and> ((\<forall>request. \<exists>x. create request = Inl x) \<longrightarrow>
        classify_article create loads article = Inr (fallback article))
   \<and> ((\<forall>answer. \<exists>x. loads answer = Inl x) \<longrightarrow>
        classify_article create loads article = Inr (fallback article))
   \<and> map_of (fallback article) ''category'' = Some (PStr ''Uncategorized'')
   \<and> map_of (fallback article) ''threat_type'' = Some (PStr ''Other'')
   \<and> (k \<noteq> ''category'' \<and> k \<noteq> ''threat_type'' \<longrightarrow>
        map_of (fallback article) k = map_of article k)"
proof -
  have returns: "\<exists>article'. classify_article create loads article = Inr article'"
    by (simp add: classify_article_def split: prod.splits option.splits)
  have service: "classify_article create loads article = Inr (fallback article)"
    if "subscript article ''title'' = Inr title" "subscript article ''summary'' = Inr summary"
      "slice_to 1000 summary = Inr content"
      "create \<lparr>req_title = title, req_content = content\<rparr> = Inl e"
  proof (rule classify_article_handler)
    from that show "snd (classify_article_try create loads article) \<noteq> None"
      by (simp add: classify_article_try_def)
  qed
  have decode: "classify_article create loads article = Inr (fallback article)"
    if "subscript article ''title'' = Inr title" "subscript article ''summary'' = Inr summary"
      "slice_to 1000 summary = Inr content"
      "create \<lparr>req_title = title, req_content = content\<rparr> = Inr message_content"
      "loads message_content = Inl e"
  proof (rule classify_article_handler)
    from that show "snd (classify_article_try create loads article) \<noteq> None"
      by (simp add: classify_article_try_def)
  qed
  have down: "classify_article create loads article = Inr (fallback article)"
    if d: "\<forall>request. \<exists>x. create request = Inl x"
  proof (rule classify_article_handler)
    have "create r \<noteq> Inr m" for r m
      using d by (metis sum.distinct(1))
    then show "snd (classify_article_try create loads article) \<noteq> None"
      by (simp add: classify_article_try_def split: sum.splits)
  qed
  have malformed: "classify_article create loads article = Inr (fallback article)"
    if d: "\<forall>answer. \<exists>x. loads answer = Inl x"
  proof (rule classify_article_handler)
    have "loads a \<noteq> Inr m" for a m
      using d by (metis sum.distinct(1))
    then show "snd (classify_article_try create loads article) \<noteq> None"
      by (simp add: classify_article_try_def split: sum.splits)
  qed
  have fields: "map_of (fallback article) ''category'' = Some (PStr ''Uncategorized'')"
    "map_of (fallback article) ''threat_type'' = Some (PStr ''Other'')"
    "k \<noteq> ''category'' \<and> k \<noteq> ''threat_type'' \<longrightarrow> map_of (fallback article) k = map_of article k"
    by (simp_all add: fallback_def map_of_setitem)
  show ?thesis
    using returns classify_article_handler [of create loads article] service decode down
      malformed fields
    by blast
qed

theorem classify_article_fallback_witness:
  "subscript raw_article ''title'' = Inr (PStr ''Bank breached'')
   \<and> subscript raw_article ''summary'' = Inr (PStr ''Attackers took records.'')
   \<and> slice_to 1000 (PStr ''Attackers took records.'') = Inr (PStr ''Attackers took records.'')
   \<and> service_down \<lparr>req_title = PStr ''Bank breached'',
         req_content = PStr ''Attackers took records.''\<rparr> = Inl (External ''connection refused'')
   \<and> classify_article service_down loads_breach raw_article =
       Inr [(''title'', PStr ''Bank breached''), (''url'', PStr ''https://thehackernews.com/bank''),
            (''source'', PStr ''The Hacker News''), (''region'', PStr ''Global''),
            (''summary'', PStr ''Attackers took records.''),
            (''category'', PStr ''Uncategorized''), (''threat_type'', PStr ''Other'')]
   \<and> classify_article service_up loads_malformed raw_article =
       classify_article service_down loads_breach raw_article"
proof -
  have t: "subscript raw_article ''title'' = Inr (PStr ''Bank breached'')"
    by (simp add: subscript_def raw_article_def)
  have s: "subscript raw_article ''summary'' = Inr (PStr ''Attackers took records.'')"
    by (simp add: subscript_def raw_article_def)
  have c: "slice_to 1000 (PStr ''Attackers took records.'') = Inr (PStr ''Attackers took records.'')"
    by simp
  have d: "service_down \<lparr>req_title = PStr ''Bank breached'',
         req_content = PStr ''Attackers took records.''\<rparr> = Inl (External ''connection refused'')"
    by (simp add: service_down_def)
  have f: "fallback raw_article =
       [(''title'', PStr ''Bank breached''), (''url'', PStr ''https://thehackernews.com/bank''),
        (''source'', PStr ''The Hacker News''), (''region'', PStr ''Global''),
        (''summary'', PStr ''Attackers took records.''),
        (''category'', PStr ''Uncategorized''), (''threat_type'', PStr ''Other'')]"
    by (simp add: fallback_def raw_article_def)
  from classify_article_fallback [of service_down loads_breach raw_article
      "PStr ''Bank breached''" "PStr ''Attackers took records.''"
      "PStr ''Attackers took records.''" "External ''connection refused''"] t s c d
  have down: "classify_article service_down loads_breach raw_article = Inr (fallback raw_article)"
    by blast
  have "\<forall>answer. \<exists>x. loads_malformed answer = Inl x"
    by (simp add: loads_malformed_def)
  with classify_article_fallback [of service_up loads_malformed raw_article]
  have "classify_article service_up loads_malformed raw_article = Inr (fallback raw_article)"
    by blast
  with down t s c d f show ?thesis by simp
qed

text \<open>For contrast, an answer that decodes to a JSON object is copied onto the article.\<close>

lemma classify_article_success_example:
  "classify_article service_up loads_breach raw_article =
     Inr [(''title'', PStr ''Bank breached''), (''url'', PStr ''https://thehackernews.com/bank''),
          (''source'', PStr ''The Hacker News''), (''region'', PStr ''Global''),
          (''summary'', PStr ''Attackers took records.''),
          (''category'', PStr ''Data Breach''), (''threat_type'', PStr ''Other'')]"
  by (simp add: classify_article_def classify_article_try_def subscript_def raw_article_def
      service_up_def loads_breach_def dict_get_def)

section \<open>Coordinates: proofs\<close>

lemma get_coordinates_table: "get_coordinates geocode ''Kenya'' = ((-1.2921, 36.8219), [])"
  by (simp add: get_coordinates_def default_coords_def)

lemma kenya_entries_step:
  assumes "kenya_entries cache"
  shows "kenya_entries (snd (snd (cached_get_coordinates geocode cache region)))"
proof (cases "map_of cache region")
  case None
  obtain c calls where g: "get_coordinates geocode region = (c, calls)"
    by (cases "get_coordinates geocode region")
  have "region = ''Kenya'' \<longrightarrow> c = (-1.2921, 36.8219)"
    using g get_coordinates_table [of geocode] by auto
  with assms have "kenya_entries ((region, c) # cache)"
    by (simp add: kenya_entries_def)
  then have "kenya_entries (take 128 ((region, c) # cache))"
    unfolding kenya_entries_def list_all_iff by (meson in_set_takeD)
  with None g show ?thesis
    by (simp add: cached_get_coordinates_def)
next
  case (Some c)
  then have "(region, c) \<in> set cache"
    by (rule map_of_SomeD)
  with assms have "region = ''Kenya'' \<longrightarrow> c = (-1.2921, 36.8219)"
    by (auto simp: kenya_entries_def list_all_iff)
  with assms have "kenya_entries ((region, c) # filter (\<lambda>entry. fst entry \<noteq> region) cache)"
    by (auto simp: kenya_entries_def list_all_iff)
  with Some show ?thesis
    by (simp add: cached_get_coordinates_def)
qed

lemma kenya_entries_cache_after: "kenya_entries (cache_after history)"
proof (induction history)
  case Nil
  then show ?case by (simp add: kenya_entries_def)
next
  case (Cons call history)
  then show ?case
    by (cases call) (simp add: kenya_entries_step)
qed

text \<open>
  C9. The body of \<open>get_coordinates\<close> answers Kenya from its table, with exactly
  the table's pair and without a call to the geocoder; so does the cached function,
  after any history of earlier calls.
\<close>

theorem get_coordinates_kenya:
  "get_coordinates geocode ''Kenya'' = ((-1.2921, 36.8219), [])
   \<and> fst (cached_get_coordinates geocode (cache_after history) ''Kenya'') = (-1.2921, 36.8219)
   \<and> fst (snd (cached_get_coordinates geocode (cache_after history) ''Kenya'')) = []"
proof (cases "map_of (cache_after history) ''Kenya''")
  case None
  then show ?thesis
    by (simp add: cached_get_coordinates_def get_coordinates_table)
next
  case (Some c)
  then have "(''Kenya'', c) \<in> set (cache_after history)"
    by (rule map_of_SomeD)
  with kenya_entries_cache_after [of history] have "c = (-1.2921, 36.8219)"
    by (auto simp: kenya_entries_def list_all_iff)
  with Some show ?thesis
    by (simp add: cached_get_coordinates_def get_coordinates_table)
qed

theorem get_coordinates_kenya_witness:
  "get_coordinates geocoder_down ''Kenya'' = ((-1.2921, 36.8219), [])
   \<and> get_coordinates geocoder_nairobi ''Nairobi'' = ((-1.2864, 36.8172), [''Nairobi''])
   \<and> fst (cached_get_coordinates geocoder_nairobi
        (cache_after [(geocoder_nairobi, ''Nairobi''), (geocoder_down, ''Kenya'')]) ''Kenya'')
       = (-1.2921, 36.8219)
   \<and> fst (snd (cached_get_coordinates geocoder_nairobi
        (cache_after [(geocoder_nairobi, ''Nairobi''), (geocoder_down, ''Kenya'')]) ''Kenya''))
       = []"
proof -
  have n: "get_coordinates geocoder_nairobi ''Nairobi'' = ((-1.2864, 36.8172), [''Nairobi''])"
    by (simp add: get_coordinates_def default_coords_def geocoder_nairobi_def)
  from n get_coordinates_kenya [of geocoder_down "[]"]
    get_coordinates_kenya [of geocoder_nairobi
      "[(geocoder_nairobi, ''Nairobi''), (geocoder_down, ''Kenya'')]"]
  show ?thesis by blast
qed

end
